theory Spec2Isabelle
  imports Complex_Main "HOL-Library.AList" "HOL-Library.Char_ord" "HOL-Library.List_Lexorder"
begin

section \<open>Indoor navigation: a shallow embedding of app.py\<close>

text \<open>
  The development follows \<^verbatim>\<open>app.py\<close>: the per-floor corridor graphs, the snapping
  of a point onto a graph, the staircase linker, the merged graph, the room resolver
  and the route request.

  The program computes with Python floats and Python strings through library
  functions. What these functions return is not fixed here: the distance between two
  points, the sum of a list of floats and the string methods are parameters of the
  model, and every property is proved for all of them. Only the comparison of two
  floats, which the program itself writes, is modelled in full.
\<close>

subsection \<open>Floats\<close>

text \<open>
  A float is a finite number, one of the two infinities or \<^verbatim>\<open>nan\<close>. The
  comparison \<^verbatim>\<open>a < b\<close> is false as soon as one side is \<^verbatim>\<open>nan\<close>, and no
  float is below itself, \<^verbatim>\<open>inf\<close> included.
\<close>

datatype pyfloat = Fin real | PInf | NInf | NaN

fun lt :: "pyfloat \<Rightarrow> pyfloat \<Rightarrow> bool" where
  "lt (Fin a) (Fin b) = (a < b)"
| "lt (Fin a) PInf = True"
| "lt NInf (Fin b) = True"
| "lt NInf PInf = True"
| "lt a b = False"

subsection \<open>Strings\<close>

text \<open>
  A string is a list of characters of some type \<open>'c\<close>. The record holds what the
  program uses of Python's strings: its own literals as strings of that type,
  \<^verbatim>\<open>s.lower()\<close>, the white space that \<^verbatim>\<open>s.strip()\<close> removes,
  \<^verbatim>\<open>ch.isalnum()\<close>, and the test
  \<^verbatim>\<open>series.astype(str).str.contains(pat, case=False, na=False)\<close> of pandas.
\<close>

record 'c pystr =
  lit :: "string \<Rightarrow> 'c list"
  lower :: "'c list \<Rightarrow> 'c list"
  isspace :: "'c \<Rightarrow> bool"
  isalnum :: "'c \<Rightarrow> bool"
  contains_nocase :: "string \<Rightarrow> 'c list \<Rightarrow> bool"

text \<open>\<^verbatim>\<open>s.strip()\<close>.\<close>

definition strip :: "'c pystr \<Rightarrow> 'c list \<Rightarrow> 'c list" where
  "strip T s = rev (dropWhile (isspace T) (rev (dropWhile (isspace T) s)))"

text \<open>\<^verbatim>\<open>q in s\<close> on strings: \<open>q\<close> occurs in \<open>s\<close> as a contiguous block.\<close>

fun py_in :: "'c list \<Rightarrow> 'c list \<Rightarrow> bool" where
  "py_in q [] = (q = [])"
| "py_in q (c # cs) = (take (length q) (c # cs) = q \<or> py_in q cs)"

text \<open>The slices \<^verbatim>\<open>s[:2]\<close> and \<^verbatim>\<open>s[-2:]\<close>; on a string shorter than two
  characters both are the whole string.\<close>

definition first2 :: "'c list \<Rightarrow> 'c list" where
  "first2 s = take 2 s"

definition last2 :: "'c list \<Rightarrow> 'c list" where
  "last2 s = drop (length s - 2) s"

subsection \<open>Points and graphs\<close>

text \<open>A coordinate pair. The coordinates that the program reads from its files are
  finite floats, which are real numbers.\<close>

type_synonym point = "real \<times> real"

text \<open>
  A \<^verbatim>\<open>networkx.Graph\<close> keeps a dictionary from each node to the dictionary of
  its neighbours, both in insertion order. The model is that adjacency structure as
  an association list of association lists, the edge data being the weight, a float.
\<close>

type_synonym 'n graph = "('n \<times> ('n \<times> pyfloat) list) list"

definition nodes :: "'n graph \<Rightarrow> 'n list" where
  "nodes G = map fst G"

definition nbrs :: "'n graph \<Rightarrow> 'n \<Rightarrow> ('n \<times> pyfloat) list" where
  "nbrs G u = (case map_of G u of None \<Rightarrow> [] | Some ns \<Rightarrow> ns)"

definition wt :: "'n graph \<Rightarrow> 'n \<Rightarrow> 'n \<Rightarrow> pyfloat option" where
  "wt G u v = map_of (nbrs G u) v"

definition add_node :: "'n \<Rightarrow> 'n graph \<Rightarrow> 'n graph" where
  "add_node n G = (if n \<in> set (nodes G) then G else G @ [(n, [])])"

text \<open>\<^verbatim>\<open>G.add_edge(u, v, weight=w)\<close>: both ends become nodes, then the weight is
  stored under \<open>v\<close> in the neighbours of \<open>u\<close> and under \<open>u\<close> in those of \<open>v\<close>.\<close>

definition set_nbr :: "'n \<Rightarrow> 'n \<Rightarrow> pyfloat \<Rightarrow> 'n graph \<Rightarrow> 'n graph" where
  "set_nbr u v w G = AList.update u (AList.update v w (nbrs G u)) G"

definition add_edge :: "'n \<Rightarrow> 'n \<Rightarrow> pyfloat \<Rightarrow> 'n graph \<Rightarrow> 'n graph" where
  "add_edge u v w G = set_nbr v u w (set_nbr u v w (add_node v (add_node u G)))"

text \<open>\<^verbatim>\<open>G.edges(data=True)\<close>: every edge once, from the end that comes first among
  the nodes.\<close>

fun edges_from :: "'n list \<Rightarrow> 'n graph \<Rightarrow> ('n \<times> 'n \<times> pyfloat) list" where
  "edges_from seen [] = []"
| "edges_from seen ((n, ns) # G) =
     map (\<lambda>(v, w). (n, v, w)) (filter (\<lambda>(v, w). v \<notin> set seen) ns) @ edges_from (n # seen) G"

definition edges :: "'n graph \<Rightarrow> ('n \<times> 'n \<times> pyfloat) list" where
  "edges G = edges_from [] G"

subsection \<open>Floor data\<close>

text \<open>
  A geometry is known to the program through its centroid and through the coordinate
  sequences of the lines of its boundary. A row of a floor's table holds the text of
  the \<^verbatim>\<open>Type\<close> and \<^verbatim>\<open>Room no.\<close> columns and the geometry, \<open>None\<close> for a
  geometry that is missing or empty. A table is either the column-less
  \<^verbatim>\<open>GeoDataFrame()\<close> that stands for a file that could not be read, or a frame
  with both text columns. The levels are the keys that the program itself gives to
  its files.
\<close>

record geom =
  centroid :: point
  boundary :: "point list list"

record 'c row =
  rtype :: "'c list"
  rname :: "'c list"
  geometry :: "geom option"

datatype 'c gdf = No_columns | Frame "'c row list"

datatype py_error = KeyError | NodeNotFound | NetworkXNoPath | TypeError

text \<open>\<^verbatim>\<open>gdf.empty\<close>.\<close>

fun empty_gdf :: "'c gdf \<Rightarrow> bool" where
  "empty_gdf No_columns = True"
| "empty_gdf (Frame rs) = (rs = [])"

subsection \<open>build_floor_graph\<close>

text \<open>
  The inner loop over \<^verbatim>\<open>range(len(coords)-1)\<close>: one edge for each pair of
  consecutive coordinates of a line, weighted by \<^verbatim>\<open>p1.distance(p2)\<close>, the
  parameter \<open>distance\<close>.
\<close>

fun add_line :: "(point \<Rightarrow> point \<Rightarrow> pyfloat) \<Rightarrow> point list \<Rightarrow> point graph \<Rightarrow> point graph" where
  "add_line distance (p1 # p2 # ps) G = add_line distance (p2 # ps) (add_edge p1 p2 (distance p1 p2) G)"
| "add_line distance ps G = G"

definition add_geom :: "(point \<Rightarrow> point \<Rightarrow> pyfloat) \<Rightarrow> geom option \<Rightarrow> point graph \<Rightarrow> point graph" where
  "add_geom distance g G = (case g of None \<Rightarrow> G | Some gm \<Rightarrow> fold (add_line distance) (boundary gm) G)"

definition build_floor_graph ::
  "'c pystr \<Rightarrow> (point \<Rightarrow> point \<Rightarrow> pyfloat) \<Rightarrow> 'c gdf \<Rightarrow> point graph" where
  "build_floor_graph T distance d =
     (if empty_gdf d then []
      else (case d of
              No_columns \<Rightarrow> []
            | Frame rs \<Rightarrow>
                (let corridors = filter (\<lambda>r. contains_nocase T ''corridor'' (rtype r)) rs
                 in fold (add_geom distance) (map geometry corridors) [])))"

subsection \<open>connect_to_corridor\<close>

text \<open>One turn of the scan: the pair is \<^verbatim>\<open>(nearest, min_d)\<close>, which starts as
  \<^verbatim>\<open>(None, float("inf"))\<close>.\<close>

definition scan_step ::
  "(point \<Rightarrow> point \<Rightarrow> pyfloat) \<Rightarrow> point \<Rightarrow> point option \<times> pyfloat \<Rightarrow> point \<Rightarrow> point option \<times> pyfloat" where
  "scan_step distance pt s node =
     (let d = distance pt node
      in if lt d (snd s) then (Some node, d) else s)"

definition connect_to_corridor ::
  "(point \<Rightarrow> point \<Rightarrow> pyfloat) \<Rightarrow> point \<Rightarrow> point graph \<Rightarrow> point option" where
  "connect_to_corridor distance pt G =
     (if length (nodes G) = 0 then None
      else fst (foldl (scan_step distance pt) (None, PInf) (nodes G)))"

subsection \<open>Floor graphs with their staircases\<close>

text \<open>
  The loop that follows the helpers: each staircase centroid of a floor is joined to
  the nearest node of the floor's graph by an edge of weight one half. The graph
  grows while the loop runs, so a later staircase may be joined to an earlier one.
  The test \<^verbatim>\<open>if nearest\<close> holds for every coordinate pair and fails for
  \<^verbatim>\<open>None\<close> only.
\<close>

definition is_stair :: "'c pystr \<Rightarrow> 'c row \<Rightarrow> bool" where
  "is_stair T r = contains_nocase T ''staircase'' (rtype r)"




subsection \<open>get_stair_pairs\<close>

text \<open>The test of line 154 on two names already trimmed and lower-cased.\<close>

definition similar_id :: "'c list \<Rightarrow> 'c list \<Rightarrow> bool" where
  "similar_id name_a name_b = (first2 name_a = first2 name_b \<or> last2 name_a = last2 name_b)"

text \<open>Selecting the staircase rows reads the \<^verbatim>\<open>Type\<close> column, which the
  column-less table does not have.\<close>

definition stair_rows :: "'c pystr \<Rightarrow> 'c gdf \<Rightarrow> py_error + 'c row list" where
  "stair_rows T d =
     (case d of No_columns \<Rightarrow> Inl KeyError | Frame rs \<Rightarrow> Inr (filter (is_stair T) rs))"

text \<open>One turn of the inner loop: the pair is \<^verbatim>\<open>(best_match, min_dist)\<close>, which
  starts as \<^verbatim>\<open>(None, float("inf"))\<close>.\<close>

definition match_step ::
  "'c pystr \<Rightarrow> (point \<Rightarrow> point \<Rightarrow> pyfloat) \<Rightarrow> 'c list \<Rightarrow> point
     \<Rightarrow> point option \<times> pyfloat \<Rightarrow> 'c row \<Rightarrow> point option \<times> pyfloat" where
  "match_step T distance name_a cent_a s row_b =
     (case geometry row_b of
        None \<Rightarrow> s
      | Some geom_b \<Rightarrow>
          (let name_b = lower T (strip T (rname row_b));
               cent_b = centroid geom_b
           in if similar_id name_a name_b
              then (let d = distance cent_a cent_b
                    in if lt d (snd s) then (Some cent_b, d) else s)
              else s))"

definition best_match ::
  "'c pystr \<Rightarrow> (point \<Rightarrow> point \<Rightarrow> pyfloat) \<Rightarrow> 'c list \<Rightarrow> point \<Rightarrow> 'c row list \<Rightarrow> point option" where
  "best_match T distance name_a cent_a stairs_b =
     fst (foldl (match_step T distance name_a cent_a) (None, PInf) stairs_b)"

type_synonym stair_pair = "(string \<times> point) \<times> (string \<times> point)"

text \<open>One turn of the loop over the staircases of the lower floor.\<close>

definition pairs_of_row ::
  "'c pystr \<Rightarrow> (point \<Rightarrow> point \<Rightarrow> pyfloat) \<Rightarrow> string \<Rightarrow> string \<Rightarrow> 'c row list \<Rightarrow> 'c row
     \<Rightarrow> stair_pair list" where
  "pairs_of_row T distance a b stairs_b row_a =
     (case geometry row_a of
        None \<Rightarrow> []
      | Some geom_a \<Rightarrow>
          (case best_match T distance (lower T (strip T (rname row_a))) (centroid geom_a) stairs_b of
             None \<Rightarrow> []
           | Some m \<Rightarrow> [((a, centroid geom_a), (b, m))]))"

definition level_pairs ::
  "'c pystr \<Rightarrow> (point \<Rightarrow> point \<Rightarrow> pyfloat) \<Rightarrow> (string \<times> 'c gdf) list \<Rightarrow> string \<Rightarrow> string
     \<Rightarrow> py_error + stair_pair list" where
  "level_pairs T distance floor_gdfs a b =
     (case (map_of floor_gdfs a, map_of floor_gdfs b) of
        (Some gdf_a, Some gdf_b) \<Rightarrow>
          (case stair_rows T gdf_a of
             Inl e \<Rightarrow> Inl e
           | Inr stairs_a \<Rightarrow>
               (case stair_rows T gdf_b of
                  Inl e \<Rightarrow> Inl e
                | Inr stairs_b \<Rightarrow>
                    Inr (concat (map (pairs_of_row T distance a b stairs_b) stairs_a))))
      | _ \<Rightarrow> Inl KeyError)"

text \<open>The pairs \<^verbatim>\<open>(levels[i], levels[i+1])\<close>.\<close>

fun adjacent :: "'a list \<Rightarrow> ('a \<times> 'a) list" where
  "adjacent (x # y # zs) = (x, y) # adjacent (y # zs)"
| "adjacent zs = []"

fun collect_pairs ::
  "'c pystr \<Rightarrow> (point \<Rightarrow> point \<Rightarrow> pyfloat) \<Rightarrow> (string \<times> 'c gdf) list \<Rightarrow> (string \<times> string) list
     \<Rightarrow> py_error + stair_pair list" where
  "collect_pairs T distance floor_gdfs [] = Inr []"
| "collect_pairs T distance floor_gdfs ((a, b) # rest) =
     (case level_pairs T distance floor_gdfs a b of
        Inl e \<Rightarrow> Inl e
      | Inr ps \<Rightarrow>
          (case collect_pairs T distance floor_gdfs rest of
             Inl e \<Rightarrow> Inl e
           | Inr qs \<Rightarrow> Inr (ps @ qs)))"

definition levels :: "(string \<times> 'c gdf) list \<Rightarrow> string list" where
  "levels floor_gdfs = sort (map fst floor_gdfs)"

definition get_stair_pairs ::
  "'c pystr \<Rightarrow> (point \<Rightarrow> point \<Rightarrow> pyfloat) \<Rightarrow> (string \<times> 'c gdf) list
     \<Rightarrow> py_error + stair_pair list" where
  "get_stair_pairs T distance floor_gdfs =
     collect_pairs T distance floor_gdfs (adjacent (levels floor_gdfs))"

subsection \<open>The merged graph\<close>

text \<open>A node of the merged graph is a floor with a coordinate. The resolver can
  also produce a floor with \<^verbatim>\<open>None\<close> in the place of the coordinate, so the
  second component is optional.\<close>

type_synonym gnode = "string \<times> point option"





subsection \<open>find_best_match\<close>

record 'c room =
  room_floor :: string
  room_type :: "'c list"
  room_name :: "'c list"
  coords :: point

text \<open>\<^verbatim>\<open>canonical\<close> on a string.\<close>

definition canonical :: "'c pystr \<Rightarrow> 'c list \<Rightarrow> 'c list \<times> 'c list" where
  "canonical T s = (let s2 = lower T (strip T s) in (s2, filter (isalnum T) s2))"

type_synonym 'c resolution = "gnode option \<times> point option \<times> 'c list list"

text \<open>
  The argument \<open>close\<close> stands for the call of
  \<^verbatim>\<open>difflib.get_close_matches\<close> on the query and the candidate words, with its
  two fixed settings. The dictionary \<^verbatim>\<open>floor_graphs\<close> has an entry for each
  floor that a room can name, so it is read as a total function.
\<close>

definition find_best_match ::
  "'c pystr \<Rightarrow> (point \<Rightarrow> point \<Rightarrow> pyfloat) \<Rightarrow> ('c list \<Rightarrow> 'c list list)
     \<Rightarrow> (string \<Rightarrow> point graph) \<Rightarrow> 'c room list \<Rightarrow> 'c list \<Rightarrow> 'c resolution" where
  "find_best_match T distance close fgs all_rooms input_str =
     (if input_str = [] then (None, None, [])
      else
        (case canonical T input_str of (q_raw, q_alnum) \<Rightarrow>
          (case find (\<lambda>r. lower T (strip T (room_name r)) = q_raw) all_rooms of
             Some r \<Rightarrow>
               (Some (room_floor r, connect_to_corridor distance (coords r) (fgs (room_floor r))),
                Some (coords r), [room_name r])
           | None \<Rightarrow>
          (case find (\<lambda>r. lower T (strip T (room_type r)) = q_raw) all_rooms of
             Some r \<Rightarrow>
               (Some (room_floor r, connect_to_corridor distance (coords r) (fgs (room_floor r))),
                Some (coords r), [room_type r])
           | None \<Rightarrow>
          (case filter (\<lambda>r. q_raw \<noteq> [] \<and> py_in q_raw (lower T (strip T (room_name r))))
                  all_rooms of
             r # rs \<Rightarrow>
               (Some (room_floor r, connect_to_corridor distance (coords r) (fgs (room_floor r))),
                Some (coords r), map room_name (take 10 (r # rs)))
           | [] \<Rightarrow>
          (case (if q_alnum \<noteq> []
                 then find (\<lambda>r. let rn_alnum = filter (isalnum T) (lower T (strip T (room_name r)))
                                in rn_alnum \<noteq> [] \<and> rn_alnum = q_alnum) all_rooms
                 else None) of
             Some r \<Rightarrow>
               (Some (room_floor r, connect_to_corridor distance (coords r) (fgs (room_floor r))),
                Some (coords r), [room_name r])
           | None \<Rightarrow>
          (case find (\<lambda>r. q_raw \<noteq> [] \<and> py_in q_raw (lower T (strip T (room_type r))))
                  all_rooms of
             Some r \<Rightarrow>
               (Some (room_floor r, connect_to_corridor distance (coords r) (fgs (room_floor r))),
                Some (coords r), [room_type r])
           | None \<Rightarrow> (None, None, close input_str))))))))"

subsection \<open>get_path\<close>

text \<open>
  The sum of line 298 over the pairs of consecutive waypoints. \<^verbatim>\<open>Point(None)\<close>
  raises, which the model shows as \<open>None\<close>. The sum of no float is the integer zero;
  the sum of a list of floats is the parameter \<open>fsum\<close>.
\<close>

fun seg_lengths :: "(point \<Rightarrow> point \<Rightarrow> pyfloat) \<Rightarrow> gnode list \<Rightarrow> pyfloat list option" where
  "seg_lengths distance (u # v # ps) =
     (case (snd u, snd v, seg_lengths distance (v # ps)) of
        (Some a, Some b, Some ds) \<Rightarrow> Some (distance a b # ds)
      | _ \<Rightarrow> None)"
| "seg_lengths distance ps = Some []"

definition path_length ::
  "(point \<Rightarrow> point \<Rightarrow> pyfloat) \<Rightarrow> (pyfloat list \<Rightarrow> pyfloat) \<Rightarrow> gnode list \<Rightarrow> pyfloat option" where
  "path_length distance fsum path =
     (case seg_lengths distance path of
        None \<Rightarrow> None
      | Some ds \<Rightarrow> Some (if ds = [] then Fin 0 else fsum ds))"

type_synonym astar = "gnode graph \<Rightarrow> gnode \<Rightarrow> gnode \<Rightarrow> py_error + gnode list"

type_synonym best_exit = "gnode option \<times> pyfloat \<times> point option"

text \<open>
  One turn of the loop over the exit rooms; the triple is
  \<^verbatim>\<open>(best, best_len, best_cent)\<close>, which starts as
  \<^verbatim>\<open>(None, float("inf"), None)\<close>. Every exception raised between
  \<^verbatim>\<open>try\<close> and \<^verbatim>\<open>except Exception\<close> leaves the triple as it was.
  \<^verbatim>\<open>networkx.astar_path\<close> is a parameter.
\<close>

definition exit_step ::
  "(point \<Rightarrow> point \<Rightarrow> pyfloat) \<Rightarrow> (pyfloat list \<Rightarrow> pyfloat) \<Rightarrow> astar \<Rightarrow> gnode graph
     \<Rightarrow> (string \<Rightarrow> point graph) \<Rightarrow> gnode \<Rightarrow> best_exit \<Rightarrow> 'c room \<Rightarrow> best_exit" where
  "exit_step distance fsum astar_path GA fgs start_node s r =
     (case connect_to_corridor distance (coords r) (fgs (room_floor r)) of
        None \<Rightarrow> s
      | Some enode \<Rightarrow>
          (case astar_path GA start_node (room_floor r, Some enode) of
             Inl e \<Rightarrow> s
           | Inr path \<Rightarrow>
               (case path_length distance fsum path of
                  None \<Rightarrow> s
                | Some len \<Rightarrow>
                    if lt len (fst (snd s))
                    then (Some (room_floor r, Some enode), len, Some (coords r))
                    else s)))"

definition is_exit :: "'c pystr \<Rightarrow> 'c room \<Rightarrow> bool" where
  "is_exit T r =
     (py_in (lit T ''exit'') (lower T (room_type r)) \<or> py_in (lit T ''exit'') (lower T (room_name r)))"

definition nearest_exit ::
  "'c pystr \<Rightarrow> (point \<Rightarrow> point \<Rightarrow> pyfloat) \<Rightarrow> (pyfloat list \<Rightarrow> pyfloat) \<Rightarrow> astar \<Rightarrow> gnode graph
     \<Rightarrow> (string \<Rightarrow> point graph) \<Rightarrow> 'c room list \<Rightarrow> gnode \<Rightarrow> best_exit" where
  "nearest_exit T distance fsum astar_path GA fgs all_rooms start_node =
     foldl (exit_step distance fsum astar_path GA fgs start_node) (None, PInf, None)
       (filter (is_exit T) all_rooms)"

datatype 'c failure =
    Start_not_found "'c list" "'c list list"
  | End_not_found "'c list" "'c list list"
  | No_reachable_exit
  | No_path

text \<open>A request ends with a 400 answer, with the path that is handed to the
  drawing code, or with an exception that nothing catches.\<close>

datatype 'c response = Bad_request "'c failure" | Route "gnode list" | Uncaught py_error

definition choose_end ::
  "'c pystr \<Rightarrow> (point \<Rightarrow> point \<Rightarrow> pyfloat) \<Rightarrow> (pyfloat list \<Rightarrow> pyfloat) \<Rightarrow> astar
     \<Rightarrow> ('c list \<Rightarrow> 'c list list) \<Rightarrow> gnode graph \<Rightarrow> (string \<Rightarrow> point graph) \<Rightarrow> 'c room list
     \<Rightarrow> gnode \<Rightarrow> 'c list \<Rightarrow> 'c failure + gnode" where
  "choose_end T distance fsum astar_path close GA fgs all_rooms start_node end_in =
     (if strip T end_in = lit T ''Exit''
      then (case nearest_exit T distance fsum astar_path GA fgs all_rooms start_node of
              (None, _) \<Rightarrow> Inl No_reachable_exit
            | (Some best, _) \<Rightarrow> Inr best)
      else (case find_best_match T distance close fgs all_rooms end_in of
              (None, _, end_candidates) \<Rightarrow> Inl (End_not_found end_in end_candidates)
            | (Some end_node, _) \<Rightarrow> Inr end_node))"

definition get_path ::
  "'c pystr \<Rightarrow> (point \<Rightarrow> point \<Rightarrow> pyfloat) \<Rightarrow> (pyfloat list \<Rightarrow> pyfloat) \<Rightarrow> astar
     \<Rightarrow> ('c list \<Rightarrow> 'c list list) \<Rightarrow> gnode graph \<Rightarrow> (string \<Rightarrow> point graph) \<Rightarrow> 'c room list
     \<Rightarrow> 'c list \<Rightarrow> 'c list \<Rightarrow> 'c response" where
  "get_path T distance fsum astar_path close GA fgs all_rooms start_in end_in =
     (case find_best_match T distance close fgs all_rooms start_in of
        (None, _, start_candidates) \<Rightarrow> Bad_request (Start_not_found start_in start_candidates)
      | (Some start_node, _) \<Rightarrow>
          (case choose_end T distance fsum astar_path close GA fgs all_rooms start_node end_in of
             Inl f \<Rightarrow> Bad_request f
           | Inr end_node \<Rightarrow>
               (case astar_path GA start_node end_node of
                  Inr path_nodes \<Rightarrow> Route path_nodes
                | Inl NetworkXNoPath \<Rightarrow> Bad_request No_path
                | Inl e \<Rightarrow> Uncaught e)))"

subsection \<open>Python's strings on the characters 0 to 255\<close>

text \<open>
  For the examples the characters are those of Isabelle, read as the code points 0 to
  255, on which Python's methods are these: white space is 9 to 13, 28 to 32, 133
  and 160; the upper-case letters are 65 to 90, 192 to 214 and 216 to 222, each 32
  below its lower-case letter; letters and digits are those of ASCII, 170, 178, 179,
  181, 185, 186, 188 to 190, 192 to 214, 216 to 246 and 248 to 255. On these
  characters the pandas test with \<^verbatim>\<open>case=False\<close> finds the pattern in the
  lower-cased text.
\<close>

definition latin1_isspace :: "char \<Rightarrow> bool" where
  "latin1_isspace c =
     (let n = (of_char c :: nat)
      in (9 \<le> n \<and> n \<le> 13) \<or> (28 \<le> n \<and> n \<le> 32) \<or> n = 133 \<or> n = 160)"

definition latin1_isupper :: "char \<Rightarrow> bool" where
  "latin1_isupper c =
     (let n = (of_char c :: nat)
      in (65 \<le> n \<and> n \<le> 90) \<or> (192 \<le> n \<and> n \<le> 214) \<or> (216 \<le> n \<and> n \<le> 222))"

definition latin1_isalnum :: "char \<Rightarrow> bool" where
  "latin1_isalnum c =
     (let n = (of_char c :: nat)
      in (48 \<le> n \<and> n \<le> 57) \<or> (65 \<le> n \<and> n \<le> 90) \<or> (97 \<le> n \<and> n \<le> 122)
         \<or> n = 170 \<or> n = 178 \<or> n = 179 \<or> n = 181 \<or> n = 185 \<or> n = 186
         \<or> (188 \<le> n \<and> n \<le> 190) \<or> (192 \<le> n \<and> n \<le> 214) \<or> (216 \<le> n \<and> n \<le> 246)
         \<or> (248 \<le> n \<and> n \<le> 255))"

text \<open>An upper-case letter becomes the letter 32 places further on: bit 5 of its
  code, clear in every upper-case letter, is set.\<close>

definition latin1_lower_char :: "char \<Rightarrow> char" where
  "latin1_lower_char c =
     (if latin1_isupper c
      then (case c of Char b0 b1 b2 b3 b4 b5 b6 b7 \<Rightarrow> Char b0 b1 b2 b3 b4 True b6 b7)
      else c)"

definition latin1 :: "char pystr" where
  "latin1 =
     \<lparr>lit = (\<lambda>s. s),
      lower = map latin1_lower_char,
      isspace = latin1_isspace,
      isalnum = latin1_isalnum,
      contains_nocase = (\<lambda>pat s. py_in pat (map latin1_lower_char s))\<rparr>"

subsection \<open>Notions used to state the properties\<close>

text \<open>
  The three scans of the source (for the nearest node, for the best staircase and for
  the nearest exit) keep the first item that is strictly below all the items before
  it and below \<^verbatim>\<open>inf\<close>. \<open>keep_min f\<close> is such a scan for a function \<open>f\<close> that
  gives, for an item that qualifies, a value and its float; \<open>first_min f xs i v d\<close>
  says that item \<open>i\<close> of \<open>xs\<close> qualifies with value \<open>v\<close> and float \<open>d\<close>, that \<open>d\<close> is
  below \<^verbatim>\<open>inf\<close>, that the float of no item is below \<open>d\<close>, and that \<open>d\<close> is below
  the float of every earlier item that is itself below \<^verbatim>\<open>inf\<close>.
\<close>

definition keep_min ::
  "('a \<Rightarrow> ('b \<times> pyfloat) option) \<Rightarrow> 'b option \<times> pyfloat \<Rightarrow> 'a \<Rightarrow> 'b option \<times> pyfloat" where
  "keep_min f s x =
     (case f x of
        None \<Rightarrow> s
      | Some (v, d) \<Rightarrow> if lt d (snd s) then (Some v, d) else s)"

definition first_min :: "('a \<Rightarrow> ('b \<times> pyfloat) option) \<Rightarrow> 'a list \<Rightarrow> nat \<Rightarrow> 'b \<Rightarrow> pyfloat \<Rightarrow> bool" where
  "first_min f xs i v d =
     (i < length xs \<and> f (xs ! i) = Some (v, d) \<and> lt d PInf
      \<and> (\<forall>j < length xs. \<forall>v' d'. f (xs ! j) = Some (v', d') \<longrightarrow> \<not> lt d' d)
      \<and> (\<forall>j < i. \<forall>v' d'. f (xs ! j) = Some (v', d') \<and> lt d' PInf \<longrightarrow> lt d d'))"

text \<open>What a staircase of the upper floor offers to a staircase of the lower floor
  named \<open>name_a\<close> at \<open>cent_a\<close>.\<close>

definition stair_offer ::
  "'c pystr \<Rightarrow> (point \<Rightarrow> point \<Rightarrow> pyfloat) \<Rightarrow> 'c list \<Rightarrow> point \<Rightarrow> 'c row \<Rightarrow> (point \<times> pyfloat) option" where
  "stair_offer T distance name_a cent_a row_b =
     (case geometry row_b of
        None \<Rightarrow> None
      | Some geom_b \<Rightarrow>
          if similar_id name_a (lower T (strip T (rname row_b)))
          then Some (centroid geom_b, distance cent_a (centroid geom_b))
          else None)"

text \<open>What an exit room offers to a start node: its node, its centroid and the
  length of the path to it, when it snaps onto its floor, a path is found and its
  length can be summed.\<close>

definition exit_offer ::
  "(point \<Rightarrow> point \<Rightarrow> pyfloat) \<Rightarrow> (pyfloat list \<Rightarrow> pyfloat) \<Rightarrow> astar \<Rightarrow> gnode graph
     \<Rightarrow> (string \<Rightarrow> point graph) \<Rightarrow> gnode \<Rightarrow> 'c room \<Rightarrow> ((gnode \<times> point) \<times> pyfloat) option" where
  "exit_offer distance fsum astar_path GA fgs start_node r =
     (case connect_to_corridor distance (coords r) (fgs (room_floor r)) of
        None \<Rightarrow> None
      | Some enode \<Rightarrow>
          (case astar_path GA start_node (room_floor r, Some enode) of
             Inl e \<Rightarrow> None
           | Inr path \<Rightarrow>
               (case path_length distance fsum path of
                  None \<Rightarrow> None
                | Some len \<Rightarrow> Some (((room_floor r, Some enode), coords r), len))))"

text \<open>The rows of a table.\<close>

fun rows :: "'c gdf \<Rightarrow> 'c row list" where
  "rows No_columns = []"
| "rows (Frame rs) = rs"

text \<open>The Euclidean distance of the claims, as a real number.\<close>

definition euclidean :: "point \<Rightarrow> point \<Rightarrow> real" where
  "euclidean p q = sqrt ((fst p - fst q)\<^sup>2 + (snd p - snd q)\<^sup>2)"

text \<open>
  The sum of two weights as numbers, and the order of the weights. A walk of a
  graph is a non-empty sequence of nodes in which each node is a neighbour of the one
  before it; its weight is the sum of the weights of its edges.
\<close>

fun add_weights :: "pyfloat \<Rightarrow> pyfloat \<Rightarrow> pyfloat" where
  "add_weights (Fin a) (Fin b) = Fin (a + b)"
| "add_weights NaN b = NaN"
| "add_weights a NaN = NaN"
| "add_weights PInf NInf = NaN"
| "add_weights NInf PInf = NaN"
| "add_weights PInf b = PInf"
| "add_weights a PInf = PInf"
| "add_weights NInf b = NInf"
| "add_weights a NInf = NInf"


fun is_walk :: "'n graph \<Rightarrow> 'n list \<Rightarrow> bool" where
  "is_walk G [] = False"
| "is_walk G [u] = (u \<in> set (nodes G))"
| "is_walk G (u # v # ps) = (wt G u v \<noteq> None \<and> is_walk G (v # ps))"






text \<open>
  The five tests of the resolver, each on one room: the trimmed and lower-cased query
  equals the name, equals the type, is a non-empty part of the name, has the same
  non-empty sequence of letters and digits as the name, is a non-empty part of the
  type.
\<close>

definition exact_name :: "'c pystr \<Rightarrow> 'c list \<Rightarrow> 'c room \<Rightarrow> bool" where
  "exact_name T q r = (lower T (strip T (room_name r)) = fst (canonical T q))"

definition exact_type :: "'c pystr \<Rightarrow> 'c list \<Rightarrow> 'c room \<Rightarrow> bool" where
  "exact_type T q r = (lower T (strip T (room_type r)) = fst (canonical T q))"

definition name_substring :: "'c pystr \<Rightarrow> 'c list \<Rightarrow> 'c room \<Rightarrow> bool" where
  "name_substring T q r =
     (fst (canonical T q) \<noteq> []
      \<and> py_in (fst (canonical T q)) (lower T (strip T (room_name r))))"

definition alnum_name :: "'c pystr \<Rightarrow> 'c list \<Rightarrow> 'c room \<Rightarrow> bool" where
  "alnum_name T q r =
     (snd (canonical T q) \<noteq> []
      \<and> filter (isalnum T) (lower T (strip T (room_name r))) = snd (canonical T q))"

definition type_substring :: "'c pystr \<Rightarrow> 'c list \<Rightarrow> 'c room \<Rightarrow> bool" where
  "type_substring T q r =
     (fst (canonical T q) \<noteq> []
      \<and> py_in (fst (canonical T q)) (lower T (strip T (room_type r))))"


section \<open>Properties\<close>


subsection \<open>The comparison of floats\<close>

lemma lt_irrefl: "\<not> lt a a"
  by (cases a) simp_all

lemma lt_trans: "lt a b \<Longrightarrow> lt b c \<Longrightarrow> lt a c"
  by (cases a; cases b; cases c) simp_all


lemma lt_linear: "lt a PInf \<Longrightarrow> lt b PInf \<Longrightarrow> \<not> lt a b \<Longrightarrow> a = b \<or> lt b a"
  by (cases a; cases b) auto

lemma not_lt_PInf: "\<not> lt PInf a"
  by (cases a) simp_all

subsection \<open>Scans that keep the first minimum\<close>

lemma first_min_keep:
  assumes "first_min f xs i v d" and "\<forall>v' d'. f x = Some (v', d') \<longrightarrow> \<not> lt d' d"
  shows "first_min f (xs @ [x]) i v d"
  using assms unfolding first_min_def
  by (auto simp: nth_append less_Suc_eq)

lemma first_min_new:
  assumes "f x = Some (v, d)" and "lt d PInf"
    and "\<forall>j < length xs. \<forall>v' d'. f (xs ! j) = Some (v', d')
           \<longrightarrow> \<not> lt d' d \<and> (lt d' PInf \<longrightarrow> lt d d')"
  shows "first_min f (xs @ [x]) (length xs) v d"
  using assms unfolding first_min_def
  by (auto simp: nth_append less_Suc_eq lt_irrefl)

lemma keep_min_scan:
  "case foldl (keep_min f) (None, PInf) xs of
     (None, m) \<Rightarrow> m = PInf \<and> (\<forall>x \<in> set xs. \<forall>v d. f x = Some (v, d) \<longrightarrow> \<not> lt d PInf)
   | (Some v, m) \<Rightarrow> (\<exists>i. first_min f xs i v m)"
proof (induction xs rule: rev_induct)
  case Nil
  then show ?case by simp
next
  case (snoc x xs)
  obtain r m where s: "foldl (keep_min f) (None, PInf) xs = (r, m)"
    by (cases "foldl (keep_min f) (None, PInf) xs")
  show ?case
  proof (cases "f x")
    case None
    then have e: "foldl (keep_min f) (None, PInf) (xs @ [x]) = (r, m)"
      by (simp add: s keep_min_def)
    show ?thesis
    proof (cases r)
      case None
      with snoc s e \<open>f x = None\<close> show ?thesis by auto
    next
      case (Some v)
      with snoc s obtain i where i: "first_min f xs i v m" by auto
      from i \<open>f x = None\<close> have "first_min f (xs @ [x]) i v m"
        by (intro first_min_keep) auto
      with e Some show ?thesis by auto
    qed
  next
    case (Some p)
    then obtain v0 d0 where p: "f x = Some (v0, d0)" by (cases p) auto
    show ?thesis
    proof (cases r)
      case None
      with snoc s have all: "m = PInf" "\<forall>y \<in> set xs. \<forall>v d. f y = Some (v, d) \<longrightarrow> \<not> lt d PInf"
        by auto
      show ?thesis
      proof (cases "lt d0 PInf")
        case True
        then have e: "foldl (keep_min f) (None, PInf) (xs @ [x]) = (Some v0, d0)"
          by (simp add: s keep_min_def p all(1))
        have "\<forall>j < length xs. \<forall>v' d'. f (xs ! j) = Some (v', d')
                \<longrightarrow> \<not> lt d' d0 \<and> (lt d' PInf \<longrightarrow> lt d0 d')"
        proof (intro allI impI)
          fix j v' d'
          assume j: "j < length xs" and o: "f (xs ! j) = Some (v', d')"
          with all(2) have n: "\<not> lt d' PInf" using nth_mem by blast
          with True have "\<not> lt d' d0" using lt_trans by blast
          with n show "\<not> lt d' d0 \<and> (lt d' PInf \<longrightarrow> lt d0 d')" by simp
        qed
        with True have "first_min f (xs @ [x]) (length xs) v0 d0"
          by (intro first_min_new p)
        with e show ?thesis by auto
      next
        case False
        then have e: "foldl (keep_min f) (None, PInf) (xs @ [x]) = (None, PInf)"
          by (simp add: s keep_min_def p all(1) None)
        with all(2) p False show ?thesis by auto
      qed
    next
      case (Some v)
      with snoc s obtain i where i: "first_min f xs i v m" by auto
      then have m: "lt m PInf"
        and le: "\<forall>j < length xs. \<forall>v' d'. f (xs ! j) = Some (v', d') \<longrightarrow> \<not> lt d' m"
        and lo: "\<forall>j < i. \<forall>v' d'. f (xs ! j) = Some (v', d') \<and> lt d' PInf \<longrightarrow> lt m d'"
        and il: "i < length xs" and io: "f (xs ! i) = Some (v, m)"
        unfolding first_min_def by auto
      show ?thesis
      proof (cases "lt d0 m")
        case True
        then have e: "foldl (keep_min f) (None, PInf) (xs @ [x]) = (Some v0, d0)"
          by (simp add: s keep_min_def p)
        from True m have d0: "lt d0 PInf" by (rule lt_trans)
        have "\<forall>j < length xs. \<forall>v' d'. f (xs ! j) = Some (v', d')
                \<longrightarrow> \<not> lt d' d0 \<and> (lt d' PInf \<longrightarrow> lt d0 d')"
        proof (intro allI impI)
          fix j v' d'
          assume j: "j < length xs" and o: "f (xs ! j) = Some (v', d')"
          with le have n: "\<not> lt d' m" by blast
          with True have a: "\<not> lt d' d0" using lt_trans by blast
          have "lt d0 d'" if v: "lt d' PInf"
          proof -
            from lt_linear[OF v m n] have "d' = m \<or> lt m d'" .
            with True show ?thesis using lt_trans by blast
          qed
          with a show "\<not> lt d' d0 \<and> (lt d' PInf \<longrightarrow> lt d0 d')" by simp
        qed
        with d0 have "first_min f (xs @ [x]) (length xs) v0 d0"
          by (intro first_min_new p)
        with e show ?thesis by auto
      next
        case False
        then have e: "foldl (keep_min f) (None, PInf) (xs @ [x]) = (r, m)"
          by (simp add: s keep_min_def p)
        from i False p have "first_min f (xs @ [x]) i v m"
          by (intro first_min_keep) auto
        with e Some show ?thesis by auto
      qed
    qed
  qed
qed

text \<open>What the scan returns, read off the invariant.\<close>

lemma keep_min_None:
  "fst (foldl (keep_min f) (None, PInf) xs) = None
     \<longleftrightarrow> (\<forall>x \<in> set xs. \<forall>v d. f x = Some (v, d) \<longrightarrow> \<not> lt d PInf)"
proof -
  obtain r m where s: "foldl (keep_min f) (None, PInf) xs = (r, m)"
    by (cases "foldl (keep_min f) (None, PInf) xs")
  show ?thesis
  proof (cases r)
    case None
    with keep_min_scan[where f = f and xs = xs] s show ?thesis by simp
  next
    case (Some v)
    with keep_min_scan[where f = f and xs = xs] s obtain i where "first_min f xs i v m" by auto
    then have "i < length xs" "f (xs ! i) = Some (v, m)" "lt m PInf"
      by (simp_all add: first_min_def)
    then have "\<exists>x \<in> set xs. \<exists>v d. f x = Some (v, d) \<and> lt d PInf"
      using nth_mem by blast
    with s Some show ?thesis by auto
  qed
qed

lemma keep_min_Some:
  assumes "fst (foldl (keep_min f) (None, PInf) xs) = Some v"
  shows "\<exists>i d. first_min f xs i v d"
proof -
  obtain r m where s: "foldl (keep_min f) (None, PInf) xs = (r, m)"
    by (cases "foldl (keep_min f) (None, PInf) xs")
  with assms have "r = Some v" by simp
  with keep_min_scan[where f = f and xs = xs] s show ?thesis by auto
qed


subsection \<open>The nearest node\<close>

lemma scan_step_keep_min:
  "scan_step distance pt = keep_min (\<lambda>node. Some (node, distance pt node))"
  by (intro ext) (simp add: scan_step_def keep_min_def)

text \<open>The point \<^verbatim>\<open>(3, 4)\<close> is nearer to the origin than the point
  \<^verbatim>\<open>(5, 2.0**-30)\<close>.\<close>

lemma euclidean_nearer: "euclidean (0, 0) (3, 4) < euclidean (0, 0) (5, 1 / 2 ^ 30)"
proof -
  have "(5::real) < sqrt (25 + (1 / 2 ^ 30)\<^sup>2)"
    by (rule real_less_rsqrt) simp
  moreover have "sqrt (25::real) = 5"
    using real_sqrt_abs[of 5] by simp
  ultimately show ?thesis
    by (simp add: euclidean_def)
qed

text \<open>
  The claim C5 as it is written fails on floats. The distance from the origin to
  \<^verbatim>\<open>(2.0**600, 0)\<close> is computed as \<^verbatim>\<open>inf\<close>, the square of the abscissa being beyond the
  largest float, and \<^verbatim>\<open>inf < inf\<close> is false: on the graph with this one node
  the scan returns \<^verbatim>\<open>None\<close>. The distances from the origin to
  \<^verbatim>\<open>(5, 2.0**-30)\<close> and to \<^verbatim>\<open>(3, 4)\<close> are both computed as \<^verbatim>\<open>5.0\<close>,
  the sum of 25 and \<^verbatim>\<open>2.0**-60\<close> being rounded to 25, so the scan keeps the first
  of the two nodes, which is the farther one. The distance functions below are the
  computed distances at these nodes.
\<close>

theorem nearest_node_counterexample:
  "nodes [((2 ^ 600, 0), [])] \<noteq> ([] :: point list)
   \<and> connect_to_corridor (\<lambda>p q. PInf) (0, 0) [((2 ^ 600, 0), [])] = None
   \<and> connect_to_corridor (\<lambda>p q. Fin 5) (0, 0) [((5, 1 / 2 ^ 30), []), ((3, 4), [])]
       = Some (5, 1 / 2 ^ 30)
   \<and> euclidean (0, 0) (3, 4) < euclidean (0, 0) (5, 1 / 2 ^ 30)"
  using euclidean_nearer
  by (simp add: connect_to_corridor_def nodes_def scan_step_def)

text \<open>
  Claim C5, amended. \<open>connect_to_corridor\<close> returns \<open>None\<close> exactly when no node of
  the graph has a computed distance below \<^verbatim>\<open>inf\<close>, as on the graph
  without nodes. Otherwise it returns a node of the graph whose computed
  distance is below \<^verbatim>\<open>inf\<close>, such that no node has a smaller computed distance,
  and that comes first among such nodes: its computed distance is smaller than that of
  every earlier node with a computed distance below \<^verbatim>\<open>inf\<close>.
\<close>

theorem nearest_node:
  "(nodes G = [] \<longrightarrow> connect_to_corridor distance pt G = None)
   \<and> (connect_to_corridor distance pt G = None
        \<longleftrightarrow> (\<forall>n \<in> set (nodes G). \<not> lt (distance pt n) PInf))
   \<and> (\<forall>n. connect_to_corridor distance pt G = Some n \<longrightarrow>
        (\<exists>i < length (nodes G). n = nodes G ! i \<and> lt (distance pt n) PInf
           \<and> (\<forall>j < length (nodes G). \<not> lt (distance pt (nodes G ! j)) (distance pt n))
           \<and> (\<forall>j < i. lt (distance pt (nodes G ! j)) PInf
                 \<longrightarrow> lt (distance pt n) (distance pt (nodes G ! j)))))"
proof -
  let ?f = "\<lambda>node. Some (node, distance pt node)"
  have c: "connect_to_corridor distance pt G = fst (foldl (keep_min ?f) (None, PInf) (nodes G))"
    by (cases "nodes G") (simp_all add: connect_to_corridor_def scan_step_keep_min)
  have a: "nodes G = [] \<longrightarrow> connect_to_corridor distance pt G = None"
    by (simp add: connect_to_corridor_def)
  have b: "connect_to_corridor distance pt G = None
        \<longleftrightarrow> (\<forall>n \<in> set (nodes G). \<not> lt (distance pt n) PInf)"
    unfolding c keep_min_None by simp
  have d: "\<forall>n. connect_to_corridor distance pt G = Some n \<longrightarrow>
        (\<exists>i < length (nodes G). n = nodes G ! i \<and> lt (distance pt n) PInf
           \<and> (\<forall>j < length (nodes G). \<not> lt (distance pt (nodes G ! j)) (distance pt n))
           \<and> (\<forall>j < i. lt (distance pt (nodes G ! j)) PInf
                 \<longrightarrow> lt (distance pt n) (distance pt (nodes G ! j))))"
  proof (intro allI impI)
    fix n
    assume "connect_to_corridor distance pt G = Some n"
    then have "fst (foldl (keep_min ?f) (None, PInf) (nodes G)) = Some n" by (simp add: c)
    from keep_min_Some[OF this] obtain i d where fm: "first_min ?f (nodes G) i n d" by blast
    then have i: "i < length (nodes G)" and o: "?f (nodes G ! i) = Some (n, d)"
      and v: "lt d PInf"
      and le': "\<forall>j < length (nodes G). \<forall>v' d'. ?f (nodes G ! j) = Some (v', d') \<longrightarrow> \<not> lt d' d"
      and lo': "\<forall>j < i. \<forall>v' d'. ?f (nodes G ! j) = Some (v', d') \<and> lt d' PInf \<longrightarrow> lt d d'"
      unfolding first_min_def by blast+
    from o have n: "n = nodes G ! i" and e: "d = distance pt n" by auto
    from le' have le: "\<forall>j < length (nodes G). \<not> lt (distance pt (nodes G ! j)) d" by blast
    from lo' have lo: "\<forall>j < i. lt (distance pt (nodes G ! j)) PInf
                         \<longrightarrow> lt d (distance pt (nodes G ! j))" by blast
    from i n v le lo show "\<exists>i < length (nodes G). n = nodes G ! i \<and> lt (distance pt n) PInf
           \<and> (\<forall>j < length (nodes G). \<not> lt (distance pt (nodes G ! j)) (distance pt n))
           \<and> (\<forall>j < i. lt (distance pt (nodes G ! j)) PInf
                 \<longrightarrow> lt (distance pt n) (distance pt (nodes G ! j)))"
      unfolding e by blast
  qed
  from a b d show ?thesis by (intro conjI)
qed

text \<open>A graph of three nodes, the last two at the same computed distance from the
  origin; the distance function gives the computed distances to these nodes.\<close>

theorem nearest_node_witness:
  "connect_to_corridor (\<lambda>p q. if q = (3, 4) then Fin 5 else Fin 1) (0, 0)
     [((3, 4), []), ((1, 0), []), ((0, 1), [])] = Some (1, 0)
   \<and> lt (Fin 1) PInf \<and> \<not> lt (Fin 5) (Fin 1)"
  using nearest_node [of "[((3, 4), []), ((1, 0), []), ((0, 1), [])]"
      "\<lambda>p q. if q = (3, 4) then Fin 5 else Fin 1" "(0, 0)"]
  by (simp add: connect_to_corridor_def nodes_def scan_step_def)


subsection \<open>Floors without corridors\<close>

lemma fold_add_geom_None: "\<forall>g \<in> set gs. g = None \<Longrightarrow> fold (add_geom distance) gs G = G"
  by (induction gs arbitrary: G) (simp_all add: add_geom_def)

text \<open>
  Claim C9. When no row of a floor whose type contains \<^verbatim>\<open>corridor\<close>, in any
  letter case, has a geometry, \<open>build_floor_graph\<close> returns the graph with no node
  and no edge. The function has no failing branch: the table without columns and the
  table without rows give the same empty graph.
\<close>

theorem no_corridor_empty_graph:
  assumes "\<forall>r \<in> set (rows d). contains_nocase T ''corridor'' (rtype r) \<longrightarrow> geometry r = None"
  shows "build_floor_graph T distance d = [] \<and> nodes (build_floor_graph T distance d) = []
    \<and> edges (build_floor_graph T distance d) = []"
proof -
  have "build_floor_graph T distance d = []"
  proof (cases d)
    case No_columns
    then show ?thesis by (simp add: build_floor_graph_def)
  next
    case (Frame rs)
    with assms have
      "\<forall>g \<in> set (map geometry (filter (\<lambda>r. contains_nocase T ''corridor'' (rtype r)) rs)). g = None"
      by auto
    then show ?thesis
      using Frame by (simp add: build_floor_graph_def fold_add_geom_None)
  qed
  then show ?thesis by (simp add: nodes_def edges_def)
qed

lemmas text_defs =
  Let_def canonical_def strip_def latin1_def latin1_isspace_def latin1_isalnum_def
  latin1_lower_char_def latin1_isupper_def

text \<open>A floor with a staircase, a laboratory and a corridor row that lost its geometry.\<close>

theorem no_corridor_empty_graph_witness:
  "build_floor_graph latin1 (\<lambda>p q. Fin 1) (Frame
     [\<lparr>rtype = ''Staircase'', rname = ''SG01'',
        geometry = Some \<lparr>centroid = (1, 1), boundary = [[(0, 0), (2, 0), (2, 2), (0, 0)]]\<rparr>\<rparr>,
      \<lparr>rtype = ''Main Corridor'', rname = ''C1'', geometry = None\<rparr>,
      \<lparr>rtype = ''Lab'', rname = ''L1'',
        geometry = Some \<lparr>centroid = (5, 5), boundary = [[(4, 4), (6, 4), (6, 6), (4, 4)]]\<rparr>\<rparr>]) = []"
  using no_corridor_empty_graph [of "Frame
     [\<lparr>rtype = ''Staircase'', rname = ''SG01'',
        geometry = Some \<lparr>centroid = (1, 1), boundary = [[(0, 0), (2, 0), (2, 2), (0, 0)]]\<rparr>\<rparr>,
      \<lparr>rtype = ''Main Corridor'', rname = ''C1'', geometry = None\<rparr>,
      \<lparr>rtype = ''Lab'', rname = ''L1'',
        geometry = Some \<lparr>centroid = (5, 5), boundary = [[(4, 4), (6, 4), (6, 6), (4, 4)]]\<rparr>\<rparr>]"
      latin1 "\<lambda>p q. Fin 1"]
  by (simp add: text_defs)

subsection \<open>The resolver\<close>

lemma empty_query_fails: "find_best_match T distance close fgs all_rooms [] = (None, None, [])"
  by (simp add: find_best_match_def)

text \<open>
  Claim C2. The claim says that a query of white space only fails at once with no
  candidate, whatever the rooms. The test of line 211 stops the empty query only; a
  query of one space goes on with an empty \<^verbatim>\<open>q_raw\<close>, and the first stage, which
  unlike the third, fourth and fifth does not ask for a non-empty query, matches a
  room whose name is empty. Here the resolver answers such a query with the node and
  the centroid of the unnamed room; the node of the floor is at the computed distance
  one from the centroid.
\<close>

theorem blank_query_matches_unnamed_room:
  "find_best_match latin1 (\<lambda>p q. Fin 1) (\<lambda>q. []) (\<lambda>f. [((1, 0), [])])
     [\<lparr>room_floor = ''Level_1'', room_type = ''Office'', room_name = '''', coords = (0, 0)\<rparr>] '' ''
   = (Some (''Level_1'', Some (1, 0)), Some (0, 0), [''''])"
  by (simp add: find_best_match_def connect_to_corridor_def nodes_def scan_step_def text_defs)

text \<open>
  Claim C1. The claim says that a query matching a room on a floor whose graph has no
  node is reported as a failure. The resolver returns the pair of the floor and
  \<^verbatim>\<open>None\<close>, which the test \<^verbatim>\<open>if not start_node\<close> of the request takes for a
  node; the search then raises \<^verbatim>\<open>NodeNotFound\<close>, which the request does not catch.
  The search function used here is what \<^verbatim>\<open>networkx.astar_path\<close> does on the empty
  graph; no distance and no sum is computed.
\<close>

theorem matched_room_on_empty_floor:
  "find_best_match latin1 (\<lambda>p q. Fin 0) (\<lambda>q. []) (\<lambda>f. [])
     [\<lparr>room_floor = ''Level_1'', room_type = ''Office'', room_name = ''A1'', coords = (0, 0)\<rparr>,
      \<lparr>room_floor = ''Level_1'', room_type = ''Lab'', room_name = ''B2'', coords = (5, 0)\<rparr>] ''a1''
   = (Some (''Level_1'', None), Some (0, 0), [''A1''])
   \<and> get_path latin1 (\<lambda>p q. Fin 0) (\<lambda>ds. Fin 0) (\<lambda>G s t. Inl NodeNotFound) (\<lambda>q. []) []
       (\<lambda>f. [])
     [\<lparr>room_floor = ''Level_1'', room_type = ''Office'', room_name = ''A1'', coords = (0, 0)\<rparr>,
      \<lparr>room_floor = ''Level_1'', room_type = ''Lab'', room_name = ''B2'', coords = (5, 0)\<rparr>]
     ''a1'' ''b2''
   = Uncaught NodeNotFound"
  by (simp add: get_path_def choose_end_def find_best_match_def connect_to_corridor_def
      nodes_def text_defs)

lemma find_never: "find (\<lambda>x. False) xs = None"
  by (induction xs) simp_all

lemma find_filter_hd: "find P xs = (case filter P xs of [] \<Rightarrow> None | x # ys \<Rightarrow> Some x)"
  by (induction xs) simp_all

lemma find_in_set: "\<exists>x \<in> set xs. P x \<Longrightarrow> \<exists>y. find P xs = Some y \<and> y \<in> set xs \<and> P y"
  by (induction xs) auto

lemma find_none_set: "\<forall>x \<in> set xs. \<not> P x \<Longrightarrow> find P xs = None"
  by (induction xs) auto

lemma alnum_find:
  "(if snd (canonical T q) \<noteq> []
    then find (\<lambda>r. let rn_alnum = filter (isalnum T) (lower T (strip T (room_name r)))
                   in rn_alnum \<noteq> [] \<and> rn_alnum = snd (canonical T q)) rooms
    else None) = find (alnum_name T q) rooms"
proof (cases "snd (canonical T q) = []")
  case True
  then have "alnum_name T q = (\<lambda>r. False)" by (intro ext) (simp add: alnum_name_def)
  with True show ?thesis by (simp add: find_never)
next
  case False
  then have "alnum_name T q = (\<lambda>r. let rn_alnum = filter (isalnum T) (lower T (strip T (room_name r)))
                   in rn_alnum \<noteq> [] \<and> rn_alnum = snd (canonical T q))"
    by (intro ext) (auto simp add: alnum_name_def Let_def)
  with False show ?thesis by simp
qed

text \<open>The resolver on a non-empty query, written with the five tests.\<close>

lemma find_best_match_stages:
  assumes "q \<noteq> []"
  shows "find_best_match T distance close fgs rooms q =
    (case find (exact_name T q) rooms of
       Some r \<Rightarrow>
         (Some (room_floor r, connect_to_corridor distance (coords r) (fgs (room_floor r))),
          Some (coords r), [room_name r])
     | None \<Rightarrow>
    (case find (exact_type T q) rooms of
       Some r \<Rightarrow>
         (Some (room_floor r, connect_to_corridor distance (coords r) (fgs (room_floor r))),
          Some (coords r), [room_type r])
     | None \<Rightarrow>
    (case filter (name_substring T q) rooms of
       r # rs \<Rightarrow>
         (Some (room_floor r, connect_to_corridor distance (coords r) (fgs (room_floor r))),
          Some (coords r), map room_name (take 10 (r # rs)))
     | [] \<Rightarrow>
    (case find (alnum_name T q) rooms of
       Some r \<Rightarrow>
         (Some (room_floor r, connect_to_corridor distance (coords r) (fgs (room_floor r))),
          Some (coords r), [room_name r])
     | None \<Rightarrow>
    (case find (type_substring T q) rooms of
       Some r \<Rightarrow>
         (Some (room_floor r, connect_to_corridor distance (coords r) (fgs (room_floor r))),
          Some (coords r), [room_type r])
     | None \<Rightarrow> (None, None, close q))))))"
proof -
  obtain q_raw q_alnum where c: "canonical T q = (q_raw, q_alnum)" by (cases "canonical T q")
  have p: "exact_name T q = (\<lambda>r. lower T (strip T (room_name r)) = q_raw)"
    "exact_type T q = (\<lambda>r. lower T (strip T (room_type r)) = q_raw)"
    "name_substring T q = (\<lambda>r. q_raw \<noteq> [] \<and> py_in q_raw (lower T (strip T (room_name r))))"
    "type_substring T q = (\<lambda>r. q_raw \<noteq> [] \<and> py_in q_raw (lower T (strip T (room_type r))))"
    by (simp_all add: exact_name_def exact_type_def name_substring_def type_substring_def c fun_eq_iff)
  have a: "find (alnum_name T q) rooms =
     (if q_alnum \<noteq> []
      then find (\<lambda>r. let rn_alnum = filter (isalnum T) (lower T (strip T (room_name r)))
                   in rn_alnum \<noteq> [] \<and> rn_alnum = q_alnum) rooms
      else None)"
    using alnum_find[of T q rooms, symmetric] unfolding c snd_conv .
  show ?thesis
    unfolding p a using assms by (simp add: find_best_match_def c)
qed


text \<open>
  The claim C3 as it is written, for every query, fails at the empty query: the first
  test, equality with the trimmed and lower-cased name, holds of a room whose name is
  empty, and the resolver answers with the failure of line 211 and consults no stage.
\<close>

theorem cascade_empty_query_counterexample:
  "exact_name latin1 ''''
     \<lparr>room_floor = ''Level_1'', room_type = ''Office'', room_name = '''', coords = (0, 0)\<rparr>
   \<and> find_best_match latin1 (\<lambda>p q. Fin 1) (\<lambda>q. []) (\<lambda>f. [((1, 0), [])])
       [\<lparr>room_floor = ''Level_1'', room_type = ''Office'', room_name = '''', coords = (0, 0)\<rparr>] ''''
     = (None, None, [])"
  by (simp add: exact_name_def find_best_match_def text_defs)

text \<open>
  Claim C3, amended. For every query that is not the empty string and every list of
  rooms, the first of the five stages at which some room matches gives the result:
  the floor and the nearest corridor node of the first room that matches at that
  stage, its centroid, and the candidates of that stage (the name, the type, or the
  first ten names that contain the query). The later stages are not consulted. When
  no room matches at any stage, the result is the failure with the suggestions of
  \<^verbatim>\<open>difflib\<close>.
\<close>

theorem cascade_order:
  assumes "q \<noteq> []"
  shows
    "((\<exists>r \<in> set rooms. exact_name T q r) \<longrightarrow>
        (\<exists>r. find (exact_name T q) rooms = Some r
           \<and> find_best_match T distance close fgs rooms q
               = (Some (room_floor r, connect_to_corridor distance (coords r) (fgs (room_floor r))),
                  Some (coords r), [room_name r])))
   \<and> ((\<forall>r \<in> set rooms. \<not> exact_name T q r)
        \<and> (\<exists>r \<in> set rooms. exact_type T q r) \<longrightarrow>
        (\<exists>r. find (exact_type T q) rooms = Some r
           \<and> find_best_match T distance close fgs rooms q
               = (Some (room_floor r, connect_to_corridor distance (coords r) (fgs (room_floor r))),
                  Some (coords r), [room_type r])))
   \<and> ((\<forall>r \<in> set rooms. \<not> exact_name T q r \<and> \<not> exact_type T q r)
        \<and> (\<exists>r \<in> set rooms. name_substring T q r) \<longrightarrow>
        (\<exists>r. find (name_substring T q) rooms = Some r
           \<and> find_best_match T distance close fgs rooms q
               = (Some (room_floor r, connect_to_corridor distance (coords r) (fgs (room_floor r))),
                  Some (coords r), map room_name (take 10 (filter (name_substring T q) rooms)))))
   \<and> ((\<forall>r \<in> set rooms. \<not> exact_name T q r \<and> \<not> exact_type T q r \<and> \<not> name_substring T q r)
        \<and> (\<exists>r \<in> set rooms. alnum_name T q r) \<longrightarrow>
        (\<exists>r. find (alnum_name T q) rooms = Some r
           \<and> find_best_match T distance close fgs rooms q
               = (Some (room_floor r, connect_to_corridor distance (coords r) (fgs (room_floor r))),
                  Some (coords r), [room_name r])))
   \<and> ((\<forall>r \<in> set rooms. \<not> exact_name T q r \<and> \<not> exact_type T q r \<and> \<not> name_substring T q r \<and> \<not> alnum_name T q r)
        \<and> (\<exists>r \<in> set rooms. type_substring T q r) \<longrightarrow>
        (\<exists>r. find (type_substring T q) rooms = Some r
           \<and> find_best_match T distance close fgs rooms q
               = (Some (room_floor r, connect_to_corridor distance (coords r) (fgs (room_floor r))),
                  Some (coords r), [room_type r])))
   \<and> ((\<forall>r \<in> set rooms. \<not> exact_name T q r \<and> \<not> exact_type T q r \<and> \<not> name_substring T q r \<and> \<not> alnum_name T q r \<and> \<not> type_substring T q r) \<longrightarrow>
        find_best_match T distance close fgs rooms q = (None, None, close q))"
  (is "?s1 \<and> ?s2 \<and> ?s3 \<and> ?s4 \<and> ?s5 \<and> ?s6")
proof -
  note st = find_best_match_stages[OF assms, of T distance close fgs rooms]
  have s1: ?s1
  proof
    assume "\<exists>r \<in> set rooms. exact_name T q r"
    from find_in_set[OF this] obtain r where "find (exact_name T q) rooms = Some r" by blast
    then show "\<exists>r. find (exact_name T q) rooms = Some r
           \<and> find_best_match T distance close fgs rooms q
               = (Some (room_floor r, connect_to_corridor distance (coords r) (fgs (room_floor r))),
                  Some (coords r), [room_name r])"
      by (simp add: st)
  qed
  have s2: ?s2
  proof
    assume h: "(\<forall>r \<in> set rooms. \<not> exact_name T q r) \<and> (\<exists>r \<in> set rooms. exact_type T q r)"
    then have n: "find (exact_name T q) rooms = None" by (simp add: find_none_set)
    from h find_in_set[of rooms "exact_type T q"] obtain r where
      "find (exact_type T q) rooms = Some r" by blast
    then show "\<exists>r. find (exact_type T q) rooms = Some r
           \<and> find_best_match T distance close fgs rooms q
               = (Some (room_floor r, connect_to_corridor distance (coords r) (fgs (room_floor r))),
                  Some (coords r), [room_type r])"
      by (simp add: st n)
  qed
  have s3: ?s3
  proof
    assume h: "(\<forall>r \<in> set rooms. \<not> exact_name T q r \<and> \<not> exact_type T q r)
        \<and> (\<exists>r \<in> set rooms. name_substring T q r)"
    then have n: "find (exact_name T q) rooms = None" "find (exact_type T q) rooms = None"
      by (simp_all add: find_none_set)
    from h find_in_set[of rooms "name_substring T q"] obtain r where
      r: "find (name_substring T q) rooms = Some r" by blast
    then obtain rs where f: "filter (name_substring T q) rooms = r # rs"
      by (auto simp: find_filter_hd split: list.splits)
    show "\<exists>r. find (name_substring T q) rooms = Some r
           \<and> find_best_match T distance close fgs rooms q
               = (Some (room_floor r, connect_to_corridor distance (coords r) (fgs (room_floor r))),
                  Some (coords r), map room_name (take 10 (filter (name_substring T q) rooms)))"
      using r f by (simp add: st n)
  qed
  have s4: ?s4
  proof
    assume h: "(\<forall>r \<in> set rooms. \<not> exact_name T q r \<and> \<not> exact_type T q r \<and> \<not> name_substring T q r)
        \<and> (\<exists>r \<in> set rooms. alnum_name T q r)"
    then have n: "find (exact_name T q) rooms = None" "find (exact_type T q) rooms = None"
      "filter (name_substring T q) rooms = []"
      by (simp_all add: find_none_set filter_empty_conv)
    from h find_in_set[of rooms "alnum_name T q"] obtain r where
      r: "find (alnum_name T q) rooms = Some r" by blast
    then show "\<exists>r. find (alnum_name T q) rooms = Some r
           \<and> find_best_match T distance close fgs rooms q
               = (Some (room_floor r, connect_to_corridor distance (coords r) (fgs (room_floor r))),
                  Some (coords r), [room_name r])"
      by (simp add: st n)
  qed
  have s5: ?s5
  proof
    assume h: "(\<forall>r \<in> set rooms. \<not> exact_name T q r \<and> \<not> exact_type T q r \<and> \<not> name_substring T q r
          \<and> \<not> alnum_name T q r)
        \<and> (\<exists>r \<in> set rooms. type_substring T q r)"
    then have n: "find (exact_name T q) rooms = None" "find (exact_type T q) rooms = None"
      "filter (name_substring T q) rooms = []" "find (alnum_name T q) rooms = None"
      by (simp_all add: find_none_set filter_empty_conv)
    from h find_in_set[of rooms "type_substring T q"] obtain r where
      r: "find (type_substring T q) rooms = Some r" by blast
    then show "\<exists>r. find (type_substring T q) rooms = Some r
           \<and> find_best_match T distance close fgs rooms q
               = (Some (room_floor r, connect_to_corridor distance (coords r) (fgs (room_floor r))),
                  Some (coords r), [room_type r])"
      by (simp add: st n)
  qed
  have s6: ?s6
  proof
    assume h: "\<forall>r \<in> set rooms. \<not> exact_name T q r \<and> \<not> exact_type T q r \<and> \<not> name_substring T q r
          \<and> \<not> alnum_name T q r \<and> \<not> type_substring T q r"
    then have n: "find (exact_name T q) rooms = None" "find (exact_type T q) rooms = None"
      "filter (name_substring T q) rooms = []" "find (alnum_name T q) rooms = None"
      "find (type_substring T q) rooms = None"
      by (simp_all add: find_none_set filter_empty_conv)
    then show "find_best_match T distance close fgs rooms q = (None, None, close q)"
      by (simp add: st n)
  qed
  from s1 s2 s3 s4 s5 s6 show ?thesis by (intro conjI)
qed

text \<open>
  The query is the name of the second room and a part of the name of the first; the
  only node of the floor is at the computed distance eight from the second room.
\<close>

theorem cascade_order_witness:
  "name_substring latin1 ''lab 1''
     \<lparr>room_floor = ''Level_1'', room_type = ''Lab'', room_name = ''Lab 10'', coords = (0, 0)\<rparr>
   \<and> find_best_match latin1 (\<lambda>p q. Fin 8) (\<lambda>q. []) (\<lambda>f. [((1, 0), [])])
       [\<lparr>room_floor = ''Level_1'', room_type = ''Lab'', room_name = ''Lab 10'', coords = (0, 0)\<rparr>,
        \<lparr>room_floor = ''Level_1'', room_type = ''Lab'', room_name = ''Lab 1'', coords = (9, 0)\<rparr>]
       ''lab 1''
     = (Some (''Level_1'', Some (1, 0)), Some (9, 0), [''Lab 1''])"
  using cascade_order [where q = "''lab 1''" and T = latin1 and rooms =
      "[\<lparr>room_floor = ''Level_1'', room_type = ''Lab'', room_name = ''Lab 10'', coords = (0, 0)\<rparr>,
        \<lparr>room_floor = ''Level_1'', room_type = ''Lab'', room_name = ''Lab 1'', coords = (9, 0)\<rparr>]"
      and distance = "\<lambda>p q. Fin 8" and close = "\<lambda>q. []" and fgs = "\<lambda>f. [((1, 0), [])]"]
  by (simp add: exact_name_def name_substring_def connect_to_corridor_def nodes_def
      scan_step_def text_defs)

text \<open>
  The claim C4 as it is written fails where the query and the name hold no letter and
  no digit: both are empty once the other characters are removed, and the fourth stage
  asks for a non-empty result on both sides.
\<close>

theorem alnum_empty_counterexample:
  "snd (canonical latin1 ''-'') = filter (isalnum latin1) (lower latin1 (strip latin1 ''+''))
   \<and> find_best_match latin1 (\<lambda>p q. Fin 1) (\<lambda>q. []) (\<lambda>f. [((1, 0), [])])
     [\<lparr>room_floor = ''Level_1'', room_type = ''Office'', room_name = ''+'', coords = (0, 0)\<rparr>] ''-''
   = (None, None, [])"
  by (simp add: find_best_match_def text_defs)

lemma canonical_alnum_nonempty: "lower T [] = [] \<Longrightarrow> snd (canonical T q) \<noteq> [] \<Longrightarrow> q \<noteq> []"
  by (auto simp: canonical_def strip_def Let_def)

text \<open>
  Claim C4, amended. When the query and the name of some room leave the same
  non-empty sequence of letters and digits once they are trimmed and lower-cased, and
  no room matches at one of the first three stages, the resolver returns the first
  such room: its floor with the nearest corridor node, its centroid, and its name as
  the only candidate. The first hypothesis is a fact of Python strings: the lower case
  of the empty string is empty.
\<close>

theorem alnum_stage:
  assumes "lower T [] = []"
    and "snd (canonical T q) \<noteq> []"
    and "\<exists>r \<in> set rooms. filter (isalnum T) (lower T (strip T (room_name r))) = snd (canonical T q)"
    and "\<forall>r \<in> set rooms. \<not> exact_name T q r \<and> \<not> exact_type T q r \<and> \<not> name_substring T q r"
  shows "\<exists>r. find (alnum_name T q) rooms = Some r \<and> r \<in> set rooms
           \<and> filter (isalnum T) (lower T (strip T (room_name r))) = snd (canonical T q)
           \<and> find_best_match T distance close fgs rooms q
               = (Some (room_floor r, connect_to_corridor distance (coords r) (fgs (room_floor r))),
                  Some (coords r), [room_name r])"
proof -
  from assms(1,2) have q: "q \<noteq> []" by (rule canonical_alnum_nonempty)
  from assms(4) have n: "find (exact_name T q) rooms = None" "find (exact_type T q) rooms = None"
    "filter (name_substring T q) rooms = []"
    by (simp_all add: find_none_set filter_empty_conv)
  from assms(2,3) have "\<exists>r \<in> set rooms. alnum_name T q r"
    by (simp add: alnum_name_def)
  from find_in_set[OF this] obtain r where
    r: "find (alnum_name T q) rooms = Some r" "r \<in> set rooms" "alnum_name T q r" by blast
  from r(3) have "filter (isalnum T) (lower T (strip T (room_name r))) = snd (canonical T q)"
    by (simp add: alnum_name_def)
  with r(1,2) show ?thesis
    by (simp add: find_best_match_stages[OF q] n)
qed

text \<open>
  The query \<^verbatim>\<open>S 2-01\<close> against a room named \<^verbatim>\<open>s201\<close>; the only node of the
  floor is at the computed distance one from the room.
\<close>

theorem alnum_stage_witness:
  "snd (canonical latin1 ''S 2-01'') = ''s201''
   \<and> find_best_match latin1 (\<lambda>p q. Fin 1) (\<lambda>q. []) (\<lambda>f. [((1, 0), [])])
       [\<lparr>room_floor = ''Level_2'', room_type = ''Staircase'', room_name = ''s201'', coords = (0, 0)\<rparr>]
       ''S 2-01''
     = (Some (''Level_2'', Some (1, 0)), Some (0, 0), [''s201''])"
  using alnum_stage [where T = latin1 and q = "''S 2-01''" and rooms =
      "[\<lparr>room_floor = ''Level_2'', room_type = ''Staircase'', room_name = ''s201'', coords = (0, 0)\<rparr>]"
      and distance = "\<lambda>p q. Fin 1" and close = "\<lambda>q. []" and fgs = "\<lambda>f. [((1, 0), [])]"]
  by (simp add: exact_name_def exact_type_def name_substring_def alnum_name_def
      connect_to_corridor_def nodes_def scan_step_def text_defs)


subsection \<open>The staircase linker\<close>

lemma match_step_keep_min:
  "match_step T distance name_a cent_a = keep_min (stair_offer T distance name_a cent_a)"
  by (intro ext) (auto simp: match_step_def keep_min_def stair_offer_def Let_def split: option.splits)

lemma best_match_fold:
  "best_match T distance name_a cent_a stairs_b
     = fst (foldl (keep_min (stair_offer T distance name_a cent_a)) (None, PInf) stairs_b)"
  by (simp add: best_match_def match_step_keep_min)

lemma stair_offer_Some:
  "stair_offer T distance name_a cent_a row_b = Some (m, d) \<longleftrightarrow>
     (\<exists>g. geometry row_b = Some g \<and> similar_id name_a (lower T (strip T (rname row_b)))
        \<and> m = centroid g \<and> d = distance cent_a (centroid g))"
  by (auto simp: stair_offer_def split: option.splits)

lemma stair_offer_None:
  "stair_offer T distance name_a cent_a row_b = None \<longleftrightarrow>
     (geometry row_b = None \<or> \<not> similar_id name_a (lower T (strip T (rname row_b))))"
  by (auto simp: stair_offer_def split: option.splits)

text \<open>The inner loop finds no match exactly when no staircase with a geometry passes
  the test on the names at a computed distance below \<^verbatim>\<open>inf\<close>.\<close>

lemma best_match_None:
  "best_match T distance name_a cent_a stairs_b = None
     \<longleftrightarrow> (\<forall>row_b \<in> set stairs_b. \<forall>g. geometry row_b = Some g
            \<and> similar_id name_a (lower T (strip T (rname row_b)))
            \<longrightarrow> \<not> lt (distance cent_a (centroid g)) PInf)"
  unfolding best_match_fold keep_min_None stair_offer_Some by blast

text \<open>The match that the inner loop finds is the first of the staircases that pass
  the test at the least computed distance.\<close>

lemma best_match_Some:
  assumes "best_match T distance name_a cent_a stairs_b = Some m"
  shows "\<exists>i g. i < length stairs_b \<and> geometry (stairs_b ! i) = Some g \<and> centroid g = m
           \<and> similar_id name_a (lower T (strip T (rname (stairs_b ! i))))
           \<and> lt (distance cent_a m) PInf
           \<and> (\<forall>j < length stairs_b. \<forall>g'. geometry (stairs_b ! j) = Some g'
                 \<and> similar_id name_a (lower T (strip T (rname (stairs_b ! j))))
                 \<longrightarrow> \<not> lt (distance cent_a (centroid g')) (distance cent_a m))
           \<and> (\<forall>j < i. \<forall>g'. geometry (stairs_b ! j) = Some g'
                 \<and> similar_id name_a (lower T (strip T (rname (stairs_b ! j))))
                 \<and> lt (distance cent_a (centroid g')) PInf
                 \<longrightarrow> lt (distance cent_a m) (distance cent_a (centroid g')))"
proof -
  let ?f = "stair_offer T distance name_a cent_a"
  from assms have "fst (foldl (keep_min ?f) (None, PInf) stairs_b) = Some m"
    by (simp add: best_match_fold)
  from keep_min_Some[OF this] obtain i d where fm: "first_min ?f stairs_b i m d" by blast
  then have i: "i < length stairs_b" and o: "?f (stairs_b ! i) = Some (m, d)" and f: "lt d PInf"
    and le: "\<forall>j < length stairs_b. \<forall>v' d'. ?f (stairs_b ! j) = Some (v', d') \<longrightarrow> \<not> lt d' d"
    and fi: "\<forall>j < i. \<forall>v' d'. ?f (stairs_b ! j) = Some (v', d') \<and> lt d' PInf \<longrightarrow> lt d d'"
    unfolding first_min_def by blast+
  from o obtain g where g: "geometry (stairs_b ! i) = Some g" "centroid g = m"
    "similar_id name_a (lower T (strip T (rname (stairs_b ! i))))" "d = distance cent_a m"
    by (auto simp: stair_offer_Some)
  have A: "\<forall>j < length stairs_b. \<forall>g'. geometry (stairs_b ! j) = Some g'
                 \<and> similar_id name_a (lower T (strip T (rname (stairs_b ! j))))
                 \<longrightarrow> \<not> lt (distance cent_a (centroid g')) (distance cent_a m)"
  proof (intro allI impI)
    fix j g'
    assume j: "j < length stairs_b" and h: "geometry (stairs_b ! j) = Some g'
                 \<and> similar_id name_a (lower T (strip T (rname (stairs_b ! j))))"
    then have "?f (stairs_b ! j) = Some (centroid g', distance cent_a (centroid g'))"
      by (simp add: stair_offer_Some)
    with le j g(4) show "\<not> lt (distance cent_a (centroid g')) (distance cent_a m)" by blast
  qed
  have B: "\<forall>j < i. \<forall>g'. geometry (stairs_b ! j) = Some g'
                 \<and> similar_id name_a (lower T (strip T (rname (stairs_b ! j))))
                 \<and> lt (distance cent_a (centroid g')) PInf
                 \<longrightarrow> lt (distance cent_a m) (distance cent_a (centroid g'))"
  proof (intro allI impI)
    fix j g'
    assume j: "j < i" and h: "geometry (stairs_b ! j) = Some g'
                 \<and> similar_id name_a (lower T (strip T (rname (stairs_b ! j))))
                 \<and> lt (distance cent_a (centroid g')) PInf"
    then have "?f (stairs_b ! j) = Some (centroid g', distance cent_a (centroid g'))"
      by (simp add: stair_offer_Some)
    with fi j h g(4) show "lt (distance cent_a m) (distance cent_a (centroid g'))" by blast
  qed
  from f g(4) have "lt (distance cent_a m) PInf" by simp
  with i g(1,2,3) A B show ?thesis by blast
qed




lemma adjacent_iff:
  "(a, b) \<in> set (adjacent xs) \<longleftrightarrow> (\<exists>i. Suc i < length xs \<and> xs ! i = a \<and> xs ! Suc i = b)"
proof (induction xs rule: adjacent.induct)
  case (1 x y zs)
  show ?case
  proof
    assume "(a, b) \<in> set (adjacent (x # y # zs))"
    then consider "a = x \<and> b = y" | "(a, b) \<in> set (adjacent (y # zs))" by auto
    then show "\<exists>i. Suc i < length (x # y # zs) \<and> (x # y # zs) ! i = a \<and> (x # y # zs) ! Suc i = b"
    proof cases
      case 1
      then show ?thesis by (intro exI[of _ 0]) simp
    next
      case 2
      with "1.IH" obtain i where "Suc i < length (y # zs)" "(y # zs) ! i = a" "(y # zs) ! Suc i = b"
        by blast
      then show ?thesis by (intro exI[of _ "Suc i"]) simp
    qed
  next
    assume "\<exists>i. Suc i < length (x # y # zs) \<and> (x # y # zs) ! i = a \<and> (x # y # zs) ! Suc i = b"
    then obtain i where i: "Suc i < length (x # y # zs)" "(x # y # zs) ! i = a" "(x # y # zs) ! Suc i = b"
      by blast
    show "(a, b) \<in> set (adjacent (x # y # zs))"
    proof (cases i)
      case 0
      with i show ?thesis by simp
    next
      case (Suc k)
      with i have "Suc k < length (y # zs) \<and> (y # zs) ! k = a \<and> (y # zs) ! Suc k = b" by simp
      with "1.IH" show ?thesis by auto
    qed
  qed
qed simp_all

lemma collect_pairs_set:
  "collect_pairs T distance fg ls = Inr out \<Longrightarrow>
     (\<forall>(a, b) \<in> set ls. \<exists>lp. level_pairs T distance fg a b = Inr lp \<and> set lp \<subseteq> set out)
     \<and> (\<forall>p \<in> set out. \<exists>(a, b) \<in> set ls. \<exists>lp. level_pairs T distance fg a b = Inr lp \<and> p \<in> set lp)"
proof (induction ls arbitrary: out)
  case Nil
  then show ?case by simp
next
  case (Cons l ls)
  obtain a b where l: "l = (a, b)" by (cases l)
  from Cons.prems l obtain ps qs where
    ps: "level_pairs T distance fg a b = Inr ps" and qs: "collect_pairs T distance fg ls = Inr qs" and out: "out = ps @ qs"
    by (auto split: sum.splits)
  from Cons.IH[OF qs] show ?case
    unfolding l out using ps by fastforce
qed

lemma level_pairs_Inr:
  "level_pairs T distance fg a b = Inr lp \<Longrightarrow>
     \<exists>rs_a rs_b. map_of fg a = Some (Frame rs_a) \<and> map_of fg b = Some (Frame rs_b)
       \<and> lp = concat (map (pairs_of_row T distance a b (filter (is_stair T) rs_b)) (filter (is_stair T) rs_a))"
  by (auto simp: level_pairs_def stair_rows_def split: option.splits sum.splits gdf.splits)

lemma pairs_of_row_iff:
  "p \<in> set (pairs_of_row T distance a b stairs_b row_a) \<longleftrightarrow>
     (\<exists>ga m. geometry row_a = Some ga
        \<and> best_match T distance (lower T (strip T (rname row_a))) (centroid ga) stairs_b = Some m
        \<and> p = ((a, centroid ga), (b, m)))"
proof (cases "geometry row_a")
  case None
  then show ?thesis by (simp add: pairs_of_row_def)
next
  case (Some ga)
  then show ?thesis
    by (cases "best_match T distance (lower T (strip T (rname row_a))) (centroid ga) stairs_b")
      (auto simp: pairs_of_row_def)
qed


lemma adjacent_subset: "(a, b) \<in> set (adjacent xs) \<Longrightarrow> a \<in> set xs \<and> b \<in> set xs"
  unfolding adjacent_iff by (metis Suc_lessD nth_mem)

lemma collect_pairs_total:
  "\<forall>(a, b) \<in> set ls. \<exists>lp. level_pairs T distance fg a b = Inr lp \<Longrightarrow> \<exists>out. collect_pairs T distance fg ls = Inr out"
  by (induction ls) auto

text \<open>The linker returns its list whenever every floor's table has its columns; a
  table without columns makes the selection of line 134 or 135 raise.\<close>

lemma get_stair_pairs_total:
  assumes "\<forall>d \<in> snd ` set fg. d \<noteq> No_columns"
  shows "\<exists>ps. get_stair_pairs T distance fg = Inr ps"
proof -
  have "\<forall>(a, b) \<in> set (adjacent (levels fg)). \<exists>lp. level_pairs T distance fg a b = Inr lp"
  proof (clarify)
    fix a b
    assume "(a, b) \<in> set (adjacent (levels fg))"
    from adjacent_subset[OF this] have "a \<in> fst ` set fg" "b \<in> fst ` set fg"
      by (simp_all add: levels_def)
    then obtain da db where m: "map_of fg a = Some da" "map_of fg b = Some db"
      by (metis domD dom_map_of_conv_image_fst)
    then have "da \<in> snd ` set fg" "db \<in> snd ` set fg"
      by (metis image_eqI map_of_SomeD snd_conv)+
    with assms obtain ra rb where "da = Frame ra" "db = Frame rb"
      by (metis gdf.exhaust)
    with m show "\<exists>lp. level_pairs T distance fg a b = Inr lp"
      by (simp add: level_pairs_def stair_rows_def)
  qed
  from collect_pairs_total[OF this] show ?thesis by (simp add: get_stair_pairs_def)
qed


lemma levels_distinct: "distinct (map fst fg) \<Longrightarrow> distinct (levels fg)"
  by (simp add: levels_def)

lemma stair_pair_origin:
  assumes "get_stair_pairs T distance fg = Inr ps" and "((a, ca), (b, cb)) \<in> set ps"
  shows "(a, b) \<in> set (adjacent (levels fg))
    \<and> (\<exists>rs_a rs_b row_a ga. map_of fg a = Some (Frame rs_a) \<and> map_of fg b = Some (Frame rs_b)
          \<and> row_a \<in> set rs_a \<and> is_stair T row_a \<and> geometry row_a = Some ga \<and> centroid ga = ca
          \<and> best_match T distance (lower T (strip T (rname row_a))) ca (filter (is_stair T) rs_b)
              = Some cb)"
proof -
  from assms(1) have c: "collect_pairs T distance fg (adjacent (levels fg)) = Inr ps"
    by (simp add: get_stair_pairs_def)
  from collect_pairs_set[OF c] assms(2) obtain a' b' lp where
    ab: "(a', b') \<in> set (adjacent (levels fg))" and lp: "level_pairs T distance fg a' b' = Inr lp"
    and p: "((a, ca), (b, cb)) \<in> set lp"
    by fastforce
  from level_pairs_Inr[OF lp] obtain rs_a rs_b where
    m: "map_of fg a' = Some (Frame rs_a)" "map_of fg b' = Some (Frame rs_b)"
    and e: "lp = concat (map (pairs_of_row T distance a' b' (filter (is_stair T) rs_b))
                  (filter (is_stair T) rs_a))"
    by blast
  from p e obtain row_a where
    ra: "row_a \<in> set rs_a" "is_stair T row_a"
    and pr: "((a, ca), (b, cb)) \<in> set (pairs_of_row T distance a' b' (filter (is_stair T) rs_b) row_a)"
    by auto
  from pr obtain ga where g: "geometry row_a = Some ga"
    "best_match T distance (lower T (strip T (rname row_a))) (centroid ga) (filter (is_stair T) rs_b)
       = Some cb"
    "a = a'" "b = b'" "ca = centroid ga"
    unfolding pairs_of_row_iff by auto
  from ab m ra g show ?thesis by auto
qed

text \<open>
  The claim C6 as it is written fails on floats. Below the staircase \<^verbatim>\<open>SA01\<close> at
  the origin, the staircases \<^verbatim>\<open>SA02\<close> at \<^verbatim>\<open>(5, 2.0**-30)\<close> and \<^verbatim>\<open>SA03\<close> at
  \<^verbatim>\<open>(3, 4)\<close> both pass the test on the names and both have the computed distance
  \<^verbatim>\<open>5.0\<close>: the linker pairs the first, which is the farther one. And when the only
  staircase of the upper floor is at \<^verbatim>\<open>(2.0**600, 0)\<close>, its computed distance is
  \<^verbatim>\<open>inf\<close> and the staircase below it is not paired at all. The distance functions
  are the computed distances at these centroids.
\<close>

theorem stair_pairs_counterexample:
  "similar_id (lower latin1 (strip latin1 ''SA01'')) (lower latin1 (strip latin1 ''SA02''))
   \<and> similar_id (lower latin1 (strip latin1 ''SA01'')) (lower latin1 (strip latin1 ''SA03''))
   \<and> get_stair_pairs latin1 (\<lambda>p q. Fin 5)
       [(''Level_1'', Frame
          [\<lparr>rtype = ''Staircase'', rname = ''SA01'',
             geometry = Some \<lparr>centroid = (0, 0), boundary = []\<rparr>\<rparr>]),
        (''Level_2'', Frame
          [\<lparr>rtype = ''Staircase'', rname = ''SA02'',
             geometry = Some \<lparr>centroid = (5, 1 / 2 ^ 30), boundary = []\<rparr>\<rparr>,
           \<lparr>rtype = ''Staircase'', rname = ''SA03'',
             geometry = Some \<lparr>centroid = (3, 4), boundary = []\<rparr>\<rparr>])]
     = Inr [((''Level_1'', (0, 0)), (''Level_2'', (5, 1 / 2 ^ 30)))]
   \<and> euclidean (0, 0) (3, 4) < euclidean (0, 0) (5, 1 / 2 ^ 30)
   \<and> get_stair_pairs latin1 (\<lambda>p q. PInf)
       [(''Level_1'', Frame
          [\<lparr>rtype = ''Staircase'', rname = ''SA01'',
             geometry = Some \<lparr>centroid = (0, 0), boundary = []\<rparr>\<rparr>]),
        (''Level_2'', Frame
          [\<lparr>rtype = ''Staircase'', rname = ''SA02'',
             geometry = Some \<lparr>centroid = (2 ^ 600, 0), boundary = []\<rparr>\<rparr>])]
     = Inr []"
  using euclidean_nearer
  by (simp add: get_stair_pairs_def levels_def level_pairs_def stair_rows_def is_stair_def
      pairs_of_row_def best_match_def match_step_def similar_id_def first2_def last2_def
      text_defs)

text \<open>
  Claim C6, amended. Every pair that the linker puts out joins two floors that follow
  each other in the sorted list of the levels, and no other two positions of that
  list. It comes from a staircase of the lower floor and a staircase of the upper floor
  whose trimmed and lower-cased names have the same first two or the same last two
  characters; the computed distance between the two centroids is below \<^verbatim>\<open>inf\<close>,
  and no staircase of the upper floor that passes this test has a smaller computed
  distance to the lower centroid. Conversely each staircase of a lower floor for which
  some staircase of the next floor passes the test at a computed distance below
  \<^verbatim>\<open>inf\<close> is paired.
\<close>

theorem stair_pairs_filtered_nearest:
  assumes "distinct (map fst fg)" and "get_stair_pairs T distance fg = Inr ps"
  shows
    "(\<forall>a ca b cb. ((a, ca), (b, cb)) \<in> set ps \<longrightarrow>
        (\<exists>i. Suc i < length (levels fg) \<and> a = levels fg ! i \<and> b = levels fg ! Suc i)
      \<and> (\<forall>i j. i < length (levels fg) \<and> j < length (levels fg)
            \<and> a = levels fg ! i \<and> b = levels fg ! j \<longrightarrow> j = Suc i)
      \<and> (\<exists>rs_a rs_b row_a row_b ga gb.
            map_of fg a = Some (Frame rs_a) \<and> map_of fg b = Some (Frame rs_b)
          \<and> row_a \<in> set rs_a \<and> is_stair T row_a \<and> geometry row_a = Some ga \<and> centroid ga = ca
          \<and> row_b \<in> set rs_b \<and> is_stair T row_b \<and> geometry row_b = Some gb \<and> centroid gb = cb
          \<and> similar_id (lower T (strip T (rname row_a))) (lower T (strip T (rname row_b)))
          \<and> lt (distance ca cb) PInf
          \<and> (\<forall>row' \<in> set rs_b. \<forall>g'. is_stair T row' \<and> geometry row' = Some g'
                \<and> similar_id (lower T (strip T (rname row_a))) (lower T (strip T (rname row')))
                \<longrightarrow> \<not> lt (distance ca (centroid g')) (distance ca cb))))
   \<and> (\<forall>i rs_a rs_b row_a ga.
        Suc i < length (levels fg)
        \<and> map_of fg (levels fg ! i) = Some (Frame rs_a)
        \<and> map_of fg (levels fg ! Suc i) = Some (Frame rs_b)
        \<and> row_a \<in> set rs_a \<and> is_stair T row_a \<and> geometry row_a = Some ga
        \<and> (\<exists>row_b \<in> set rs_b. \<exists>gb. is_stair T row_b \<and> geometry row_b = Some gb
              \<and> similar_id (lower T (strip T (rname row_a))) (lower T (strip T (rname row_b)))
              \<and> lt (distance (centroid ga) (centroid gb)) PInf)
        \<longrightarrow> (\<exists>cb. ((levels fg ! i, centroid ga), (levels fg ! Suc i, cb)) \<in> set ps))"
  (is "?sound \<and> ?complete")
proof -
  have sound: ?sound
  proof (intro allI impI)
    fix a ca b cb
    assume p: "((a, ca), (b, cb)) \<in> set ps"
    from stair_pair_origin[OF assms(2) p] obtain rs_a rs_b row_a ga where
      ab: "(a, b) \<in> set (adjacent (levels fg))"
      and m: "map_of fg a = Some (Frame rs_a)" "map_of fg b = Some (Frame rs_b)"
      and ra: "row_a \<in> set rs_a" "is_stair T row_a" "geometry row_a = Some ga" "centroid ga = ca"
      and bm: "best_match T distance (lower T (strip T (rname row_a))) ca (filter (is_stair T) rs_b)
                 = Some cb"
      by blast
    let ?n = "lower T (strip T (rname row_a))"
    let ?sb = "filter (is_stair T) rs_b"
    from ab obtain i0 where i0: "Suc i0 < length (levels fg)" "levels fg ! i0 = a"
      "levels fg ! Suc i0 = b"
      unfolding adjacent_iff by blast
    then have A: "\<exists>i. Suc i < length (levels fg) \<and> a = levels fg ! i \<and> b = levels fg ! Suc i"
      by blast
    have B: "\<forall>i j. i < length (levels fg) \<and> j < length (levels fg)
              \<and> a = levels fg ! i \<and> b = levels fg ! j \<longrightarrow> j = Suc i"
    proof (intro allI impI)
      fix i j
      assume h: "i < length (levels fg) \<and> j < length (levels fg)
              \<and> a = levels fg ! i \<and> b = levels fg ! j"
      from levels_distinct[OF assms(1)] have d: "distinct (levels fg)" .
      from h i0 d have "i = i0" by (simp add: nth_eq_iff_index_eq)
      moreover from h i0 d have "j = Suc i0" by (simp add: nth_eq_iff_index_eq)
      ultimately show "j = Suc i" by simp
    qed
    from best_match_Some[OF bm] obtain k gb where
      k: "k < length ?sb" and gb: "geometry (?sb ! k) = Some gb" "centroid gb = cb"
        "similar_id ?n (lower T (strip T (rname (?sb ! k))))"
      and fin: "lt (distance ca cb) PInf"
      and le: "\<forall>j < length ?sb. \<forall>g'. geometry (?sb ! j) = Some g'
                 \<and> similar_id ?n (lower T (strip T (rname (?sb ! j))))
                 \<longrightarrow> \<not> lt (distance ca (centroid g')) (distance ca cb)"
      by blast
    define row_b where "row_b = ?sb ! k"
    from k have "row_b \<in> set ?sb" unfolding row_b_def by (rule nth_mem)
    then have rb: "row_b \<in> set rs_b" "is_stair T row_b" by simp_all
    from gb have gb': "geometry row_b = Some gb" "centroid gb = cb"
      "similar_id ?n (lower T (strip T (rname row_b)))"
      unfolding row_b_def by simp_all
    have near: "\<forall>row' \<in> set rs_b. \<forall>g'. is_stair T row' \<and> geometry row' = Some g'
                  \<and> similar_id ?n (lower T (strip T (rname row')))
                  \<longrightarrow> \<not> lt (distance ca (centroid g')) (distance ca cb)"
    proof (intro ballI allI impI)
      fix row' g'
      assume r: "row' \<in> set rs_b" and h: "is_stair T row' \<and> geometry row' = Some g'
                  \<and> similar_id ?n (lower T (strip T (rname row')))"
      then have "row' \<in> set ?sb" by simp
      then obtain j where "j < length ?sb" "?sb ! j = row'"
        unfolding in_set_conv_nth by blast
      with le h show "\<not> lt (distance ca (centroid g')) (distance ca cb)" by blast
    qed
    from m ra rb gb' fin near have C: "\<exists>rs_a rs_b row_a row_b ga gb.
              map_of fg a = Some (Frame rs_a) \<and> map_of fg b = Some (Frame rs_b)
            \<and> row_a \<in> set rs_a \<and> is_stair T row_a \<and> geometry row_a = Some ga \<and> centroid ga = ca
            \<and> row_b \<in> set rs_b \<and> is_stair T row_b \<and> geometry row_b = Some gb \<and> centroid gb = cb
            \<and> similar_id (lower T (strip T (rname row_a))) (lower T (strip T (rname row_b)))
            \<and> lt (distance ca cb) PInf
            \<and> (\<forall>row' \<in> set rs_b. \<forall>g'. is_stair T row' \<and> geometry row' = Some g'
                  \<and> similar_id (lower T (strip T (rname row_a))) (lower T (strip T (rname row')))
                  \<longrightarrow> \<not> lt (distance ca (centroid g')) (distance ca cb))"
      by blast
    from A B C show "(\<exists>i. Suc i < length (levels fg) \<and> a = levels fg ! i \<and> b = levels fg ! Suc i)
        \<and> (\<forall>i j. i < length (levels fg) \<and> j < length (levels fg)
              \<and> a = levels fg ! i \<and> b = levels fg ! j \<longrightarrow> j = Suc i)
        \<and> (\<exists>rs_a rs_b row_a row_b ga gb.
              map_of fg a = Some (Frame rs_a) \<and> map_of fg b = Some (Frame rs_b)
            \<and> row_a \<in> set rs_a \<and> is_stair T row_a \<and> geometry row_a = Some ga \<and> centroid ga = ca
            \<and> row_b \<in> set rs_b \<and> is_stair T row_b \<and> geometry row_b = Some gb \<and> centroid gb = cb
            \<and> similar_id (lower T (strip T (rname row_a))) (lower T (strip T (rname row_b)))
            \<and> lt (distance ca cb) PInf
            \<and> (\<forall>row' \<in> set rs_b. \<forall>g'. is_stair T row' \<and> geometry row' = Some g'
                  \<and> similar_id (lower T (strip T (rname row_a))) (lower T (strip T (rname row')))
                  \<longrightarrow> \<not> lt (distance ca (centroid g')) (distance ca cb)))"
      by (intro conjI)
  qed
  have complete: ?complete
  proof (intro allI impI)
    fix i rs_a rs_b row_a ga
    assume h: "Suc i < length (levels fg)
          \<and> map_of fg (levels fg ! i) = Some (Frame rs_a)
          \<and> map_of fg (levels fg ! Suc i) = Some (Frame rs_b)
          \<and> row_a \<in> set rs_a \<and> is_stair T row_a \<and> geometry row_a = Some ga
          \<and> (\<exists>row_b \<in> set rs_b. \<exists>gb. is_stair T row_b \<and> geometry row_b = Some gb
                \<and> similar_id (lower T (strip T (rname row_a))) (lower T (strip T (rname row_b)))
                \<and> lt (distance (centroid ga) (centroid gb)) PInf)"
    let ?a = "levels fg ! i" and ?b = "levels fg ! Suc i"
    let ?n = "lower T (strip T (rname row_a))"
    from assms(2) have c: "collect_pairs T distance fg (adjacent (levels fg)) = Inr ps"
      by (simp add: get_stair_pairs_def)
    from h have "(?a, ?b) \<in> set (adjacent (levels fg))"
      unfolding adjacent_iff by blast
    with collect_pairs_set[OF c] obtain lp where
      lp: "level_pairs T distance fg ?a ?b = Inr lp" "set lp \<subseteq> set ps"
      by fastforce
    from level_pairs_Inr[OF lp(1)] h have
      e: "lp = concat (map (pairs_of_row T distance ?a ?b (filter (is_stair T) rs_b))
                 (filter (is_stair T) rs_a))"
      by auto
    from h obtain row_b gb where rb: "row_b \<in> set rs_b" "is_stair T row_b"
      "geometry row_b = Some gb" "similar_id ?n (lower T (strip T (rname row_b)))"
      "lt (distance (centroid ga) (centroid gb)) PInf"
      by blast
    then have "best_match T distance ?n (centroid ga) (filter (is_stair T) rs_b) \<noteq> None"
      unfolding best_match_None by auto
    then obtain cb where
      "best_match T distance ?n (centroid ga) (filter (is_stair T) rs_b) = Some cb"
      by auto
    with h have "((?a, centroid ga), (?b, cb))
        \<in> set (pairs_of_row T distance ?a ?b (filter (is_stair T) rs_b) row_a)"
      unfolding pairs_of_row_iff by auto
    with h e have "((?a, centroid ga), (?b, cb)) \<in> set lp" by auto
    with lp(2) show "\<exists>cb. ((?a, centroid ga), (?b, cb)) \<in> set ps" by blast
  qed
  from sound complete show ?thesis by (rule conjI)
qed

text \<open>
  Three floors, given out of order. Of the staircases of the second floor,
  \<^verbatim>\<open>S202\<close> is the nearest to \<^verbatim>\<open>SG01\<close> below it but shares neither end of its
  name with it; \<^verbatim>\<open>SG77\<close> and \<^verbatim>\<open>S201\<close> pass the test, at the computed distances
  three and one, and the second of them is paired. All centroids lie on one vertical
  line, where the computed distance is the difference of the ordinates.
\<close>

theorem stair_pairs_filtered_nearest_witness:
  "get_stair_pairs latin1 (\<lambda>p q. Fin \<bar>snd q - snd p\<bar>)
     [(''Level_2'', Frame
        [\<lparr>rtype = ''Staircase'', rname = ''S202'', geometry = Some \<lparr>centroid = (0, 1/2), boundary = []\<rparr>\<rparr>,
         \<lparr>rtype = ''Staircase'', rname = ''SG77'', geometry = Some \<lparr>centroid = (0, 3), boundary = []\<rparr>\<rparr>,
         \<lparr>rtype = ''Staircase'', rname = ''S201'', geometry = Some \<lparr>centroid = (0, 1), boundary = []\<rparr>\<rparr>]),
      (''Level_1'', Frame
        [\<lparr>rtype = ''staircase A'', rname = '' SG01'', geometry = Some \<lparr>centroid = (0, 0), boundary = []\<rparr>\<rparr>,
         \<lparr>rtype = ''Lab'', rname = ''L101'', geometry = Some \<lparr>centroid = (4, 0), boundary = []\<rparr>\<rparr>]),
      (''Level_3'', Frame
        [\<lparr>rtype = ''Staircase'', rname = ''S301'', geometry = Some \<lparr>centroid = (0, 2), boundary = []\<rparr>\<rparr>])]
   = Inr [((''Level_1'', (0, 0)), (''Level_2'', (0, 1))), ((''Level_2'', (0, 1)), (''Level_3'', (0, 2)))]
   \<and> (\<exists>i. Suc i < length (levels
     [(''Level_2'', Frame
        [\<lparr>rtype = ''Staircase'', rname = ''S202'', geometry = Some \<lparr>centroid = (0, 1/2), boundary = []\<rparr>\<rparr>,
         \<lparr>rtype = ''Staircase'', rname = ''SG77'', geometry = Some \<lparr>centroid = (0, 3), boundary = []\<rparr>\<rparr>,
         \<lparr>rtype = ''Staircase'', rname = ''S201'', geometry = Some \<lparr>centroid = (0, 1), boundary = []\<rparr>\<rparr>]),
      (''Level_1'', Frame
        [\<lparr>rtype = ''staircase A'', rname = '' SG01'', geometry = Some \<lparr>centroid = (0, 0), boundary = []\<rparr>\<rparr>,
         \<lparr>rtype = ''Lab'', rname = ''L101'', geometry = Some \<lparr>centroid = (4, 0), boundary = []\<rparr>\<rparr>]),
      (''Level_3'', Frame
        [\<lparr>rtype = ''Staircase'', rname = ''S301'', geometry = Some \<lparr>centroid = (0, 2), boundary = []\<rparr>\<rparr>])])
       \<and> ''Level_1'' = levels
     [(''Level_2'', Frame
        [\<lparr>rtype = ''Staircase'', rname = ''S202'', geometry = Some \<lparr>centroid = (0, 1/2), boundary = []\<rparr>\<rparr>,
         \<lparr>rtype = ''Staircase'', rname = ''SG77'', geometry = Some \<lparr>centroid = (0, 3), boundary = []\<rparr>\<rparr>,
         \<lparr>rtype = ''Staircase'', rname = ''S201'', geometry = Some \<lparr>centroid = (0, 1), boundary = []\<rparr>\<rparr>]),
      (''Level_1'', Frame
        [\<lparr>rtype = ''staircase A'', rname = '' SG01'', geometry = Some \<lparr>centroid = (0, 0), boundary = []\<rparr>\<rparr>,
         \<lparr>rtype = ''Lab'', rname = ''L101'', geometry = Some \<lparr>centroid = (4, 0), boundary = []\<rparr>\<rparr>]),
      (''Level_3'', Frame
        [\<lparr>rtype = ''Staircase'', rname = ''S301'', geometry = Some \<lparr>centroid = (0, 2), boundary = []\<rparr>\<rparr>])] ! i)"
  (is "get_stair_pairs latin1 ?D ?fg = Inr ?ps \<and> ?adj")
proof -
  have d: "distinct (map fst ?fg)" by simp
  have g: "get_stair_pairs latin1 ?D ?fg = Inr ?ps"
    by (simp add: get_stair_pairs_def levels_def level_pairs_def stair_rows_def is_stair_def
        pairs_of_row_def best_match_def match_step_def similar_id_def
        first2_def last2_def text_defs)
  have "((''Level_1'', (0, 0)), (''Level_2'', (0, 1))) \<in> set ?ps" by simp
  with stair_pairs_filtered_nearest[OF d g] have
    "(\<exists>i. Suc i < length (levels ?fg) \<and> ''Level_1'' = levels ?fg ! i \<and> ''Level_2'' = levels ?fg ! Suc i)"
    by blast
  then have ?adj by blast
  with g show ?thesis by (rule conjI)
qed


subsection \<open>The nearest exit\<close>

lemma exit_step_keep_min:
  "exit_step distance fsum ap GA fgs s (map_option fst r, m, map_option snd r) x =
     (case keep_min (exit_offer distance fsum ap GA fgs s) (r, m) x of
        (r', m') \<Rightarrow> (map_option fst r', m', map_option snd r'))"
  by (simp add: exit_step_def keep_min_def exit_offer_def split: option.splits sum.splits)

lemma exit_scan_keep_min:
  "foldl (exit_step distance fsum ap GA fgs s) (map_option fst r, m, map_option snd r) xs =
     (case foldl (keep_min (exit_offer distance fsum ap GA fgs s)) (r, m) xs of
        (r', m') \<Rightarrow> (map_option fst r', m', map_option snd r'))"
proof (induction xs arbitrary: r m)
  case Nil
  then show ?case by simp
next
  case (Cons x xs)
  obtain r' m' where k: "keep_min (exit_offer distance fsum ap GA fgs s) (r, m) x = (r', m')"
    by (cases "keep_min (exit_offer distance fsum ap GA fgs s) (r, m) x")
  then show ?case
    using Cons.IH[of r' m'] by (simp add: exit_step_keep_min)
qed

lemma nearest_exit_keep_min:
  "fst (nearest_exit T distance fsum ap GA fgs rooms s) =
     map_option fst
       (fst (foldl (keep_min (exit_offer distance fsum ap GA fgs s)) (None, PInf)
          (filter (is_exit T) rooms)))"
  using exit_scan_keep_min[of distance fsum ap GA fgs s None PInf "filter (is_exit T) rooms"]
  by (simp add: nearest_exit_def split: prod.splits)

lemma exit_offer_Some:
  "exit_offer distance fsum ap GA fgs s r = Some ((n, c), l) \<longleftrightarrow>
     (\<exists>e p. connect_to_corridor distance (coords r) (fgs (room_floor r)) = Some e
        \<and> ap GA s (room_floor r, Some e) = Inr p \<and> path_length distance fsum p = Some l
        \<and> n = (room_floor r, Some e) \<and> c = coords r)"
  by (auto simp: exit_offer_def split: option.splits sum.splits)

text \<open>The loop over the exit rooms keeps no exit exactly when no exit room offers a
  path whose computed length is below \<^verbatim>\<open>inf\<close>.\<close>

lemma nearest_exit_None:
  "fst (nearest_exit T distance fsum ap GA fgs rooms s) = None
     \<longleftrightarrow> (\<forall>r \<in> set rooms. \<forall>x l. is_exit T r \<and> exit_offer distance fsum ap GA fgs s r = Some (x, l)
            \<longrightarrow> \<not> lt l PInf)"
  unfolding nearest_exit_keep_min option.map_disc_iff keep_min_None by auto

lemma nearest_exit_Some:
  assumes "fst (nearest_exit T distance fsum ap GA fgs rooms s) = Some best"
  shows "\<exists>r l. r \<in> set rooms \<and> is_exit T r
           \<and> exit_offer distance fsum ap GA fgs s r = Some ((best, coords r), l)
           \<and> lt l PInf
           \<and> (\<forall>r' \<in> set rooms. \<forall>x l'. is_exit T r'
                 \<and> exit_offer distance fsum ap GA fgs s r' = Some (x, l')
                 \<longrightarrow> \<not> lt l' l)"
proof -
  let ?f = "exit_offer distance fsum ap GA fgs s" and ?xs = "filter (is_exit T) rooms"
  from assms obtain v where v: "fst (foldl (keep_min ?f) (None, PInf) ?xs) = Some v"
    and b: "fst v = best"
    unfolding nearest_exit_keep_min by auto
  obtain c where vc: "v = (best, c)" using b by (cases v) simp
  from keep_min_Some[OF v] obtain i d where fm: "first_min ?f ?xs i (best, c) d"
    unfolding vc by blast
  then have i: "i < length ?xs" and o: "?f (?xs ! i) = Some ((best, c), d)" and f: "lt d PInf"
    and le: "\<forall>j < length ?xs. \<forall>v' d'. ?f (?xs ! j) = Some (v', d') \<longrightarrow> \<not> lt d' d"
    unfolding first_min_def by blast+
  from i have mem: "?xs ! i \<in> set ?xs" by (rule nth_mem)
  from o have c: "c = coords (?xs ! i)"
    unfolding exit_offer_Some by blast
  have "\<forall>r' \<in> set rooms. \<forall>x l'. is_exit T r' \<and> ?f r' = Some (x, l') \<longrightarrow> \<not> lt l' d"
  proof (intro ballI allI impI)
    fix r' x l'
    assume "r' \<in> set rooms" and h: "is_exit T r' \<and> ?f r' = Some (x, l')"
    then have "r' \<in> set ?xs" by simp
    then obtain j where "j < length ?xs" "?xs ! j = r'"
      unfolding in_set_conv_nth by blast
    with le h show "\<not> lt l' d" by blast
  qed
  with mem o c f show ?thesis by auto
qed

lemma get_path_exit:
  assumes "fst (find_best_match T distance close fgs rooms start_in) = Some s"
    and "strip T end_in = lit T ''Exit''"
  shows "get_path T distance fsum ap close GA fgs rooms start_in end_in =
     (case fst (nearest_exit T distance fsum ap GA fgs rooms s) of
        None \<Rightarrow> Bad_request No_reachable_exit
      | Some best \<Rightarrow>
          (case ap GA s best of
             Inr path_nodes \<Rightarrow> Route path_nodes
           | Inl NetworkXNoPath \<Rightarrow> Bad_request No_path
           | Inl e \<Rightarrow> Uncaught e))"
proof -
  obtain a b c where f: "find_best_match T distance close fgs rooms start_in = (a, b, c)"
    by (cases "find_best_match T distance close fgs rooms start_in")
  with assms(1) have a: "a = Some s" by simp
  obtain x y z where n: "nearest_exit T distance fsum ap GA fgs rooms s = (x, y, z)"
    by (cases "nearest_exit T distance fsum ap GA fgs rooms s")
  show ?thesis
    by (cases x) (simp_all add: get_path_def choose_end_def f a n assms(2))
qed

text \<open>
  The claim C7 as it is written fails on floats. The office is at the origin and the
  only exit at \<^verbatim>\<open>(2.0**600, 0)\<close>, both on nodes of the floor, which an edge joins.
  The exit snaps onto its node and the search finds the path of this one edge, so
  the exit is reachable; but the length of the path is computed as \<^verbatim>\<open>inf\<close>, the
  test \<^verbatim>\<open>length < best_len\<close> fails and the request is answered with
  \<^verbatim>\<open>No reachable emergency exit\<close>. The distance function gives the computed
  distances at these two points, the sum is that of a single float, and the search
  function returns the two ends, which is the path in this graph.
\<close>

theorem nearest_exit_counterexample:
  "is_exit latin1
     \<lparr>room_floor = ''Level_1'', room_type = ''Exit'', room_name = ''East'', coords = (2 ^ 600, 0)\<rparr>
   \<and> connect_to_corridor (\<lambda>p q. if p = q then Fin 0 else PInf) (2 ^ 600, 0)
       [((0, 0), [((2 ^ 600, 0), PInf)]), ((2 ^ 600, 0), [((0, 0), PInf)])]
     = Some (2 ^ 600, 0)
   \<and> is_walk
       [((''Level_1'', Some (0, 0)), [((''Level_1'', Some (2 ^ 600, 0)), PInf)]),
        ((''Level_1'', Some (2 ^ 600, 0)), [((''Level_1'', Some (0, 0)), PInf)])]
       [(''Level_1'', Some (0, 0)), (''Level_1'', Some (2 ^ 600, 0))]
   \<and> get_path latin1 (\<lambda>p q. if p = q then Fin 0 else PInf) (\<lambda>ds. hd ds) (\<lambda>G s t. Inr [s, t])
       (\<lambda>q. [])
       [((''Level_1'', Some (0, 0)), [((''Level_1'', Some (2 ^ 600, 0)), PInf)]),
        ((''Level_1'', Some (2 ^ 600, 0)), [((''Level_1'', Some (0, 0)), PInf)])]
       (\<lambda>f. [((0, 0), [((2 ^ 600, 0), PInf)]), ((2 ^ 600, 0), [((0, 0), PInf)])])
       [\<lparr>room_floor = ''Level_1'', room_type = ''Office'', room_name = ''A1'', coords = (0, 0)\<rparr>,
        \<lparr>room_floor = ''Level_1'', room_type = ''Exit'', room_name = ''East'', coords = (2 ^ 600, 0)\<rparr>]
       ''a1'' ''Exit''
     = Bad_request No_reachable_exit"
  by (simp add: get_path_def choose_end_def find_best_match_def nearest_exit_def exit_step_def
      is_exit_def path_length_def connect_to_corridor_def nodes_def scan_step_def
      wt_def nbrs_def text_defs)


text \<open>
  Claim C7, amended. Take a request whose start resolves to the node \<open>s\<close> and whose
  end is the word \<^verbatim>\<open>Exit\<close>. An exit room, one whose type or name contains
  \<^verbatim>\<open>exit\<close> in any letter case, is a candidate when it snaps onto a node of its
  floor, the search finds a path from \<open>s\<close> to that node and the length of the path,
  the sum of the computed distances between its consecutive points, can be taken;
  the other exit rooms are passed over. The request fails with
  \<^verbatim>\<open>No reachable emergency exit\<close> exactly when no candidate has a path of computed
  length below \<^verbatim>\<open>inf\<close>. Otherwise it returns the path that the search finds to a
  candidate; the computed length of this path is below \<^verbatim>\<open>inf\<close>, and the path
  found to no candidate has a smaller computed length.
\<close>

theorem nearest_exit_route:
  assumes "fst (find_best_match T distance close fgs rooms start_in) = Some s"
    and "strip T end_in = lit T ''Exit''"
  shows "(get_path T distance fsum ap close GA fgs rooms start_in end_in = Bad_request No_reachable_exit
            \<longleftrightarrow> (\<forall>r \<in> set rooms. \<forall>e p l. is_exit T r
                   \<and> connect_to_corridor distance (coords r) (fgs (room_floor r)) = Some e
                   \<and> ap GA s (room_floor r, Some e) = Inr p
                   \<and> path_length distance fsum p = Some l
                   \<longrightarrow> \<not> lt l PInf))
    \<and> ((\<exists>r \<in> set rooms. \<exists>e p l. is_exit T r
            \<and> connect_to_corridor distance (coords r) (fgs (room_floor r)) = Some e
            \<and> ap GA s (room_floor r, Some e) = Inr p \<and> path_length distance fsum p = Some l
            \<and> lt l PInf) \<longrightarrow>
         (\<exists>r e p l. r \<in> set rooms \<and> is_exit T r
            \<and> connect_to_corridor distance (coords r) (fgs (room_floor r)) = Some e
            \<and> ap GA s (room_floor r, Some e) = Inr p \<and> path_length distance fsum p = Some l
            \<and> lt l PInf
            \<and> get_path T distance fsum ap close GA fgs rooms start_in end_in = Route p
            \<and> (\<forall>r' \<in> set rooms. \<forall>e' p' l'. is_exit T r'
                  \<and> connect_to_corridor distance (coords r') (fgs (room_floor r')) = Some e'
                  \<and> ap GA s (room_floor r', Some e') = Inr p'
                  \<and> path_length distance fsum p' = Some l'
                  \<longrightarrow> \<not> lt l' l)))"
  (is "?none \<and> (?ex \<longrightarrow> ?some)")
proof -
  note gp = get_path_exit[OF assms, of fsum ap GA]
  have some: ?some if ex: ?ex
  proof -
    from ex obtain r0 e0 p0 l0 where r0: "r0 \<in> set rooms" "is_exit T r0"
      "connect_to_corridor distance (coords r0) (fgs (room_floor r0)) = Some e0"
      "ap GA s (room_floor r0, Some e0) = Inr p0" "path_length distance fsum p0 = Some l0"
      "lt l0 PInf"
      by blast
    then have "exit_offer distance fsum ap GA fgs s r0
                 = Some (((room_floor r0, Some e0), coords r0), l0)"
      unfolding exit_offer_Some by blast
    with r0 have "fst (nearest_exit T distance fsum ap GA fgs rooms s) \<noteq> None"
      unfolding nearest_exit_None by blast
    then obtain best where b: "fst (nearest_exit T distance fsum ap GA fgs rooms s) = Some best"
      by auto
    from nearest_exit_Some[OF b] obtain r l where
      r: "r \<in> set rooms" "is_exit T r"
        "exit_offer distance fsum ap GA fgs s r = Some ((best, coords r), l)" "lt l PInf"
      and le: "\<forall>r' \<in> set rooms. \<forall>x l'. is_exit T r'
                 \<and> exit_offer distance fsum ap GA fgs s r' = Some (x, l') \<longrightarrow> \<not> lt l' l"
      by blast
    from r(3) obtain e p where
      e: "connect_to_corridor distance (coords r) (fgs (room_floor r)) = Some e"
      "ap GA s (room_floor r, Some e) = Inr p" "path_length distance fsum p = Some l"
      "best = (room_floor r, Some e)"
      unfolding exit_offer_Some by blast
    have g: "get_path T distance fsum ap close GA fgs rooms start_in end_in = Route p"
      using gp b e by simp
    have m: "\<forall>r' \<in> set rooms. \<forall>e' p' l'. is_exit T r'
                  \<and> connect_to_corridor distance (coords r') (fgs (room_floor r')) = Some e'
                  \<and> ap GA s (room_floor r', Some e') = Inr p'
                  \<and> path_length distance fsum p' = Some l'
                  \<longrightarrow> \<not> lt l' l"
    proof (intro ballI allI impI)
      fix r' e' p' l'
      assume r': "r' \<in> set rooms" and h: "is_exit T r'
                  \<and> connect_to_corridor distance (coords r') (fgs (room_floor r')) = Some e'
                  \<and> ap GA s (room_floor r', Some e') = Inr p'
                  \<and> path_length distance fsum p' = Some l'"
      then have "exit_offer distance fsum ap GA fgs s r'
                   = Some (((room_floor r', Some e'), coords r'), l')"
        unfolding exit_offer_Some by blast
      with le r' h show "\<not> lt l' l" by blast
    qed
    from r(1,2,4) e(1-3) g m show ?thesis by blast
  qed
  have none: ?none
  proof
    assume f: "get_path T distance fsum ap close GA fgs rooms start_in end_in
                 = Bad_request No_reachable_exit"
    show "\<forall>r \<in> set rooms. \<forall>e p l. is_exit T r
             \<and> connect_to_corridor distance (coords r) (fgs (room_floor r)) = Some e
             \<and> ap GA s (room_floor r, Some e) = Inr p \<and> path_length distance fsum p = Some l
             \<longrightarrow> \<not> lt l PInf"
    proof (rule ccontr)
      assume "\<not> (\<forall>r \<in> set rooms. \<forall>e p l. is_exit T r
             \<and> connect_to_corridor distance (coords r) (fgs (room_floor r)) = Some e
             \<and> ap GA s (room_floor r, Some e) = Inr p \<and> path_length distance fsum p = Some l
             \<longrightarrow> \<not> lt l PInf)"
      then have ?ex by blast
      from some[OF this] obtain p where
        "get_path T distance fsum ap close GA fgs rooms start_in end_in = Route p" by blast
      with f show False by simp
    qed
  next
    assume h: "\<forall>r \<in> set rooms. \<forall>e p l. is_exit T r
             \<and> connect_to_corridor distance (coords r) (fgs (room_floor r)) = Some e
             \<and> ap GA s (room_floor r, Some e) = Inr p \<and> path_length distance fsum p = Some l
             \<longrightarrow> \<not> lt l PInf"
    have "\<forall>r \<in> set rooms. \<forall>x l. is_exit T r \<and> exit_offer distance fsum ap GA fgs s r = Some (x, l)
            \<longrightarrow> \<not> lt l PInf"
    proof (intro ballI allI impI)
      fix r x l
      assume r: "r \<in> set rooms"
        and o: "is_exit T r \<and> exit_offer distance fsum ap GA fgs s r = Some (x, l)"
      obtain n c where x: "x = (n, c)" by (cases x)
      from o obtain e p where
        "connect_to_corridor distance (coords r) (fgs (room_floor r)) = Some e"
        "ap GA s (room_floor r, Some e) = Inr p" "path_length distance fsum p = Some l"
        unfolding x exit_offer_Some by blast
      with h r o show "\<not> lt l PInf" by blast
    qed
    then have "fst (nearest_exit T distance fsum ap GA fgs rooms s) = None"
      unfolding nearest_exit_None .
    then show "get_path T distance fsum ap close GA fgs rooms start_in end_in
                 = Bad_request No_reachable_exit"
      using gp by simp
  qed
  from none some show ?thesis by blast
qed

text \<open>
  One floor with an office and two exits on a corridor from west to east, the western
  exit nearer. All points lie on one horizontal line, where the computed distance is
  the difference of the abscissae; each path has one edge, and the sum of its length
  adds one float to zero. The search function returns the two ends, which is the
  path in this graph.
\<close>

theorem nearest_exit_route_witness:
  "fst (find_best_match latin1 (\<lambda>p q. Fin \<bar>fst q - fst p\<bar>) (\<lambda>q. [])
     (\<lambda>f. [((0, 0), [((10, 0), Fin 10), ((- 3, 0), Fin 3)]),
           ((10, 0), [((0, 0), Fin 10)]), ((- 3, 0), [((0, 0), Fin 3)])])
     [\<lparr>room_floor = ''Level_1'', room_type = ''Office'', room_name = ''A1'', coords = (0, 0)\<rparr>,
      \<lparr>room_floor = ''Level_1'', room_type = ''Emergency Exit'', room_name = ''East'', coords = (10, 0)\<rparr>,
      \<lparr>room_floor = ''Level_1'', room_type = ''Door'', room_name = ''West exit'', coords = (- 3, 0)\<rparr>]
     ''a1'') = Some (''Level_1'', Some (0, 0))
   \<and> nearest_exit latin1 (\<lambda>p q. Fin \<bar>fst q - fst p\<bar>) (\<lambda>ds. foldl add_weights (Fin 0) ds)
       (\<lambda>G s t. Inr [s, t])
       [((''Level_1'', Some (0, 0)),
           [((''Level_1'', Some (10, 0)), Fin 10), ((''Level_1'', Some (- 3, 0)), Fin 3)]),
        ((''Level_1'', Some (10, 0)), [((''Level_1'', Some (0, 0)), Fin 10)]),
        ((''Level_1'', Some (- 3, 0)), [((''Level_1'', Some (0, 0)), Fin 3)])]
       (\<lambda>f. [((0, 0), [((10, 0), Fin 10), ((- 3, 0), Fin 3)]),
           ((10, 0), [((0, 0), Fin 10)]), ((- 3, 0), [((0, 0), Fin 3)])])
     [\<lparr>room_floor = ''Level_1'', room_type = ''Office'', room_name = ''A1'', coords = (0, 0)\<rparr>,
      \<lparr>room_floor = ''Level_1'', room_type = ''Emergency Exit'', room_name = ''East'', coords = (10, 0)\<rparr>,
      \<lparr>room_floor = ''Level_1'', room_type = ''Door'', room_name = ''West exit'', coords = (- 3, 0)\<rparr>]
     (''Level_1'', Some (0, 0))
     = (Some (''Level_1'', Some (- 3, 0)), Fin 3, Some (- 3, 0))
   \<and> get_path latin1 (\<lambda>p q. Fin \<bar>fst q - fst p\<bar>) (\<lambda>ds. foldl add_weights (Fin 0) ds)
       (\<lambda>G s t. Inr [s, t]) (\<lambda>q. [])
       [((''Level_1'', Some (0, 0)),
           [((''Level_1'', Some (10, 0)), Fin 10), ((''Level_1'', Some (- 3, 0)), Fin 3)]),
        ((''Level_1'', Some (10, 0)), [((''Level_1'', Some (0, 0)), Fin 10)]),
        ((''Level_1'', Some (- 3, 0)), [((''Level_1'', Some (0, 0)), Fin 3)])]
       (\<lambda>f. [((0, 0), [((10, 0), Fin 10), ((- 3, 0), Fin 3)]),
           ((10, 0), [((0, 0), Fin 10)]), ((- 3, 0), [((0, 0), Fin 3)])])
     [\<lparr>room_floor = ''Level_1'', room_type = ''Office'', room_name = ''A1'', coords = (0, 0)\<rparr>,
      \<lparr>room_floor = ''Level_1'', room_type = ''Emergency Exit'', room_name = ''East'', coords = (10, 0)\<rparr>,
      \<lparr>room_floor = ''Level_1'', room_type = ''Door'', room_name = ''West exit'', coords = (- 3, 0)\<rparr>]
     ''a1'' '' Exit ''
     = Route [(''Level_1'', Some (0, 0)), (''Level_1'', Some (- 3, 0))]
   \<and> get_path latin1 (\<lambda>p q. Fin \<bar>fst q - fst p\<bar>) (\<lambda>ds. foldl add_weights (Fin 0) ds)
       (\<lambda>G s t. Inr [s, t]) (\<lambda>q. [])
       [((''Level_1'', Some (0, 0)),
           [((''Level_1'', Some (10, 0)), Fin 10), ((''Level_1'', Some (- 3, 0)), Fin 3)]),
        ((''Level_1'', Some (10, 0)), [((''Level_1'', Some (0, 0)), Fin 10)]),
        ((''Level_1'', Some (- 3, 0)), [((''Level_1'', Some (0, 0)), Fin 3)])]
       (\<lambda>f. [((0, 0), [((10, 0), Fin 10), ((- 3, 0), Fin 3)]),
           ((10, 0), [((0, 0), Fin 10)]), ((- 3, 0), [((0, 0), Fin 3)])])
     [\<lparr>room_floor = ''Level_1'', room_type = ''Office'', room_name = ''A1'', coords = (0, 0)\<rparr>,
      \<lparr>room_floor = ''Level_1'', room_type = ''Emergency Exit'', room_name = ''East'', coords = (10, 0)\<rparr>,
      \<lparr>room_floor = ''Level_1'', room_type = ''Door'', room_name = ''West exit'', coords = (- 3, 0)\<rparr>]
     ''a1'' '' Exit ''
     \<noteq> Bad_request No_reachable_exit"
  (is "fst (find_best_match latin1 ?D ?close ?fgs ?rooms ?start) = Some ?s
        \<and> nearest_exit latin1 ?D ?fsum ?ap ?GA ?fgs ?rooms ?s = ?best
        \<and> get_path latin1 ?D ?fsum ?ap ?close ?GA ?fgs ?rooms ?start ?end = ?route \<and> ?reach")
proof -
  have a: "fst (find_best_match latin1 ?D ?close ?fgs ?rooms ?start) = Some ?s"
    by (simp add: find_best_match_def connect_to_corridor_def nodes_def
        scan_step_def text_defs)
  have b: "strip latin1 ?end = lit latin1 ''Exit''"
    by (simp add: text_defs)
  have n: "nearest_exit latin1 ?D ?fsum ?ap ?GA ?fgs ?rooms ?s = ?best"
    by (simp add: nearest_exit_def exit_step_def is_exit_def connect_to_corridor_def nodes_def
        path_length_def scan_step_def text_defs)
  have g: "get_path latin1 ?D ?fsum ?ap ?close ?GA ?fgs ?rooms ?start ?end = ?route"
    by (simp add: get_path_exit[OF a b] n)
  have c: "connect_to_corridor ?D (coords (?rooms ! 2)) (?fgs (room_floor (?rooms ! 2)))
             = Some (- 3, 0)"
    by (simp add: connect_to_corridor_def nodes_def scan_step_def)
  have l: "path_length ?D ?fsum [?s, (''Level_1'', Some (- 3, 0))] = Some (Fin 3)"
    by (simp add: path_length_def)
  have e: "is_exit latin1 (?rooms ! 2)" "?rooms ! 2 \<in> set ?rooms"
    by (simp_all add: is_exit_def text_defs)
  from nearest_exit_route[OF a b, of ?fsum ?ap ?GA]
  have iff: "(get_path latin1 ?D ?fsum ?ap ?close ?GA ?fgs ?rooms ?start ?end
                = Bad_request No_reachable_exit)
      = (\<forall>r \<in> set ?rooms. \<forall>e p l. is_exit latin1 r
             \<and> connect_to_corridor ?D (coords r) (?fgs (room_floor r)) = Some e
             \<and> ?ap ?GA ?s (room_floor r, Some e) = Inr p \<and> path_length ?D ?fsum p = Some l
             \<longrightarrow> \<not> lt l PInf)"
    by (rule conjunct1)
  have ?reach
  proof
    assume "get_path latin1 ?D ?fsum ?ap ?close ?GA ?fgs ?rooms ?start ?end
              = Bad_request No_reachable_exit"
    with iff have h: "\<forall>r \<in> set ?rooms. \<forall>e p l. is_exit latin1 r
             \<and> connect_to_corridor ?D (coords r) (?fgs (room_floor r)) = Some e
             \<and> ?ap ?GA ?s (room_floor r, Some e) = Inr p \<and> path_length ?D ?fsum p = Some l
             \<longrightarrow> \<not> lt l PInf"
      by (rule iffD1)
    note bspec[OF h e(2), THEN spec, of "(- 3, 0)", THEN spec,
        of "[?s, (''Level_1'', Some (- 3, 0))]", THEN spec, of "Fin 3"]
    with e(1) c l show False by simp
  qed
  with a n g show ?thesis by (intro conjI)
qed


subsection \<open>The merged graph is undirected\<close>














subsection \<open>Walks and their reversal\<close>






















end
